theory Spec2Isabelle
  imports Main
begin

section \<open>The collaborators of the decorator helpers\<close>

subsection \<open>The Cache Contract\<close>

text \<open>
  Modelled from the spec: the cache class is not part of \<^verbatim>\<open>_decorators.py\<close>; the
  helpers only use \<^verbatim>\<open>cache[k]\<close>, \<^verbatim>\<open>cache[k] = v\<close>, \<^verbatim>\<open>cache.setdefault(k, v)\<close> and
  \<^verbatim>\<open>cache.clear()\<close>. The Cache Contract of the spec is a mapping from keys to values
  whose lookup fails distinguishably when the key is absent (\<^verbatim>\<open>KeyError\<close>, here
  \<open>None\<close>) and whose insertion fails distinguishably when the value is rejected
  for capacity reasons (\<^verbatim>\<open>ValueError\<close>, here \<open>None\<close>). The capacity policy
  \<open>rejects\<close> belongs to the cache object and may depend on the current contents, the key
  and the value. Eviction is outside the contract.
\<close>

record ('k, 'v) cache =
  items :: "'k \<rightharpoonup> 'v"
  rejects :: "('k \<rightharpoonup> 'v) \<Rightarrow> 'k \<Rightarrow> 'v \<Rightarrow> bool"

definition cache_getitem :: "('k, 'v) cache \<Rightarrow> 'k \<Rightarrow> 'v option" where
  "cache_getitem c k = items c k"

definition cache_setitem :: "('k, 'v) cache \<Rightarrow> 'k \<Rightarrow> 'v \<Rightarrow> ('k, 'v) cache option" where
  "cache_setitem c k v =
     (if rejects c (items c) k v then None
      else Some (c\<lparr>items := (items c)(k \<mapsto> v)\<rparr>))"

text \<open>
  Modelled from the spec: insert-if-absent stores a value only if no value is already
  present for the key and returns whichever value ends up stored; a rejected insertion
  is the \<^verbatim>\<open>ValueError\<close> of the contract.
\<close>

definition cache_setdefault ::
  "('k, 'v) cache \<Rightarrow> 'k \<Rightarrow> 'v \<Rightarrow> ('v \<times> ('k, 'v) cache) option" where
  "cache_setdefault c k v =
     (case cache_getitem c k of
        Some r \<Rightarrow> Some (r, c)
      | None \<Rightarrow>
          (case cache_setitem c k v of
             None \<Rightarrow> None
           | Some c' \<Rightarrow> Some (v, c')))"

definition cache_clear_all :: "('k, 'v) cache \<Rightarrow> ('k, 'v) cache" where
  "cache_clear_all c = c\<lparr>items := Map.empty\<rparr>"

subsection \<open>The wrapped function, call outcomes and the wrapper state\<close>

text \<open>
  The wrapped function is arbitrary Python code: it takes the call arguments, may read
  and change the world outside the wrapper (\<open>'w\<close>), and either returns a value
  (\<open>Inr v\<close>) or raises (\<open>Inl e\<close>). A wrapper call returns a value, raises the
  failure of the wrapped function, or raises the \<^verbatim>\<open>KeyError\<close> of
  \<^verbatim>\<open>pending.remove(k)\<close>.
\<close>

type_synonym ('a, 'v, 'e, 'w) pyfunc = "'a \<Rightarrow> 'w \<Rightarrow> ('e + 'v) \<times> 'w"

datatype ('v, 'e) outcome = Return 'v | Raise 'e | RaiseKeyError

text \<open>
  The closure variables of a wrapper (\<^verbatim>\<open>hits\<close>, \<^verbatim>\<open>misses\<close>, \<^verbatim>\<open>pending\<close>), the
  cache object it shares with its creator, and the world of the wrapped function. A
  strategy reads and writes only the fields its source function has.
\<close>

record ('k, 'v, 'w) wstate =
  cache :: "('k, 'v) cache"
  hits :: nat
  misses :: nat
  pending :: "'k set"
  world :: 'w

definition fresh :: "('k, 'v) cache \<Rightarrow> 'w \<Rightarrow> ('k, 'v, 'w) wstate" where
  "fresh c w = \<lparr>cache = c, hits = 0, misses = 0, pending = {}, world = w\<rparr>"

definition call_func ::
  "('a, 'v, 'e, 'w) pyfunc \<Rightarrow> 'a \<Rightarrow> ('k, 'v, 'w) wstate \<Rightarrow> ('e + 'v) \<times> ('k, 'v, 'w) wstate" where
  "call_func func a s = (case func a (world s) of (r, w) \<Rightarrow> (r, s\<lparr>world := w\<rparr>))"

section \<open>The wrapper strategies\<close>

text \<open>
  Each wrapper is given twice. The first definition is the call with nothing else
  running. The second (\<open>_among\<close>) is the same code with the one point marked where
  the caller holds no lock and the computation is about to start: \<open>others\<close> is what
  other code (other callers of the wrapper, or the owner of the cache) does to the shared
  state at that point. With \<open>others\<close> the identity the two agree.
\<close>

subsection \<open>\<^verbatim>\<open>_cached_cond_info\<close>\<close>

text \<open>
  The three sections run under \<^verbatim>\<open>with cond:\<close>. In the first, \<^verbatim>\<open>wait_for\<close> lets the
  caller through only when its key is not pending; otherwise the caller has to wait.
\<close>

datatype ('v, 's) entered = MustWait | Hit 'v 's | Miss 's

definition cond_info_enter ::
  "'k \<Rightarrow> ('k, 'v, 'w) wstate \<Rightarrow> ('v, ('k, 'v, 'w) wstate) entered" where
  "cond_info_enter k s =
     (if k \<in> pending s then MustWait
      else
        (case cache_getitem (cache s) k of
           Some result \<Rightarrow> Hit result (s\<lparr>hits := hits s + 1\<rparr>)
         | None \<Rightarrow> Miss (s\<lparr>pending := insert k (pending s), misses := misses s + 1\<rparr>)))"

definition cond_info_store :: "'k \<Rightarrow> 'v \<Rightarrow> ('k, 'v, 'w) wstate \<Rightarrow> ('k, 'v, 'w) wstate" where
  "cond_info_store k v s =
     (case cache_setitem (cache s) k v of
        Some c \<Rightarrow> s\<lparr>cache := c\<rparr>
      | None \<Rightarrow> s)"

text \<open>\<^verbatim>\<open>pending.remove(k)\<close> raises \<^verbatim>\<open>KeyError\<close> (\<open>None\<close>) when the key is not in the set.\<close>

definition cond_info_finally :: "'k \<Rightarrow> ('k, 'v, 'w) wstate \<Rightarrow> ('k, 'v, 'w) wstate option" where
  "cond_info_finally k s =
     (if k \<in> pending s then Some (s\<lparr>pending := pending s - {k}\<rparr>) else None)"

definition cond_info_exit ::
  "'k \<Rightarrow> ('v, 'e) outcome \<Rightarrow> ('k, 'v, 'w) wstate \<Rightarrow> ('v, 'e) outcome \<times> ('k, 'v, 'w) wstate" where
  "cond_info_exit k out s =
     (case cond_info_finally k s of
        Some s' \<Rightarrow> (out, s')
      | None \<Rightarrow> (RaiseKeyError, s))"

text \<open>
  One call with no other caller running: a caller whose key is pending would wait
  forever, which is the value \<open>None\<close>.
\<close>

definition cached_cond_info_wrapper ::
  "('a, 'v, 'e, 'w) pyfunc \<Rightarrow> ('a \<Rightarrow> 'k) \<Rightarrow> 'a \<Rightarrow> ('k, 'v, 'w) wstate
     \<Rightarrow> (('v, 'e) outcome \<times> ('k, 'v, 'w) wstate) option" where
  "cached_cond_info_wrapper func key a s =
     (let k = key a in
      case cond_info_enter k s of
        MustWait \<Rightarrow> None
      | Hit result s1 \<Rightarrow> Some (Return result, s1)
      | Miss s1 \<Rightarrow>
          (case call_func func a s1 of
             (Inl e, s2) \<Rightarrow> Some (cond_info_exit k (Raise e) s2)
           | (Inr v, s2) \<Rightarrow> Some (cond_info_exit k (Return v) (cond_info_store k v s2))))"

definition cached_cond_info_wrapper_among ::
  "(('k, 'v, 'w) wstate \<Rightarrow> ('k, 'v, 'w) wstate) \<Rightarrow> ('a, 'v, 'e, 'w) pyfunc \<Rightarrow> ('a \<Rightarrow> 'k) \<Rightarrow> 'a
     \<Rightarrow> ('k, 'v, 'w) wstate \<Rightarrow> (('v, 'e) outcome \<times> ('k, 'v, 'w) wstate) option" where
  "cached_cond_info_wrapper_among others func key a s =
     (let k = key a in
      case cond_info_enter k s of
        MustWait \<Rightarrow> None
      | Hit result s1 \<Rightarrow> Some (Return result, s1)
      | Miss s1 \<Rightarrow>
          (case call_func func a (others s1) of
             (Inl e, s2) \<Rightarrow> Some (cond_info_exit k (Raise e) s2)
           | (Inr v, s2) \<Rightarrow> Some (cond_info_exit k (Return v) (cond_info_store k v s2))))"

definition cached_cond_info_cache_clear :: "('k, 'v, 'w) wstate \<Rightarrow> ('k, 'v, 'w) wstate" where
  "cached_cond_info_cache_clear s = s\<lparr>cache := cache_clear_all (cache s), hits := 0, misses := 0\<rparr>"

definition cached_cond_info_cache_info :: "(nat \<Rightarrow> nat \<Rightarrow> 'i) \<Rightarrow> ('k, 'v, 'w) wstate \<Rightarrow> 'i" where
  "cached_cond_info_cache_info info s = info (hits s) (misses s)"

subsection \<open>\<^verbatim>\<open>_cached_locked_info\<close>\<close>

definition locked_info_lookup ::
  "'k \<Rightarrow> ('k, 'v, 'w) wstate \<Rightarrow> 'v option \<times> ('k, 'v, 'w) wstate" where
  "locked_info_lookup k s =
     (case cache_getitem (cache s) k of
        Some result \<Rightarrow> (Some result, s\<lparr>hits := hits s + 1\<rparr>)
      | None \<Rightarrow> (None, s\<lparr>misses := misses s + 1\<rparr>))"

definition locked_store :: "'k \<Rightarrow> 'v \<Rightarrow> ('k, 'v, 'w) wstate \<Rightarrow> 'v \<times> ('k, 'v, 'w) wstate" where
  "locked_store k v s =
     (case cache_setdefault (cache s) k v of
        Some (r, c) \<Rightarrow> (r, s\<lparr>cache := c\<rparr>)
      | None \<Rightarrow> (v, s))"

definition cached_locked_info_wrapper ::
  "('a, 'v, 'e, 'w) pyfunc \<Rightarrow> ('a \<Rightarrow> 'k) \<Rightarrow> 'a \<Rightarrow> ('k, 'v, 'w) wstate
     \<Rightarrow> ('v, 'e) outcome \<times> ('k, 'v, 'w) wstate" where
  "cached_locked_info_wrapper func key a s =
     (let k = key a in
      case locked_info_lookup k s of
        (Some result, s1) \<Rightarrow> (Return result, s1)
      | (None, s1) \<Rightarrow>
          (case call_func func a s1 of
             (Inl e, s2) \<Rightarrow> (Raise e, s2)
           | (Inr v, s2) \<Rightarrow> (case locked_store k v s2 of (r, s3) \<Rightarrow> (Return r, s3))))"

definition cached_locked_info_wrapper_among ::
  "(('k, 'v, 'w) wstate \<Rightarrow> ('k, 'v, 'w) wstate) \<Rightarrow> ('a, 'v, 'e, 'w) pyfunc \<Rightarrow> ('a \<Rightarrow> 'k) \<Rightarrow> 'a
     \<Rightarrow> ('k, 'v, 'w) wstate \<Rightarrow> ('v, 'e) outcome \<times> ('k, 'v, 'w) wstate" where
  "cached_locked_info_wrapper_among others func key a s =
     (let k = key a in
      case locked_info_lookup k s of
        (Some result, s1) \<Rightarrow> (Return result, s1)
      | (None, s1) \<Rightarrow>
          (case call_func func a (others s1) of
             (Inl e, s2) \<Rightarrow> (Raise e, s2)
           | (Inr v, s2) \<Rightarrow> (case locked_store k v s2 of (r, s3) \<Rightarrow> (Return r, s3))))"

definition cached_locked_info_cache_clear :: "('k, 'v, 'w) wstate \<Rightarrow> ('k, 'v, 'w) wstate" where
  "cached_locked_info_cache_clear s = s\<lparr>cache := cache_clear_all (cache s), hits := 0, misses := 0\<rparr>"

definition cached_locked_info_cache_info :: "(nat \<Rightarrow> nat \<Rightarrow> 'i) \<Rightarrow> ('k, 'v, 'w) wstate \<Rightarrow> 'i" where
  "cached_locked_info_cache_info info s = info (hits s) (misses s)"

subsection \<open>\<^verbatim>\<open>_cached_unlocked_info\<close>\<close>

definition cached_unlocked_info_wrapper ::
  "('a, 'v, 'e, 'w) pyfunc \<Rightarrow> ('a \<Rightarrow> 'k) \<Rightarrow> 'a \<Rightarrow> ('k, 'v, 'w) wstate
     \<Rightarrow> ('v, 'e) outcome \<times> ('k, 'v, 'w) wstate" where
  "cached_unlocked_info_wrapper func key a s =
     (let k = key a in
      case cache_getitem (cache s) k of
        Some result \<Rightarrow> (Return result, s\<lparr>hits := hits s + 1\<rparr>)
      | None \<Rightarrow>
          (case call_func func a (s\<lparr>misses := misses s + 1\<rparr>) of
             (Inl e, s2) \<Rightarrow> (Raise e, s2)
           | (Inr v, s2) \<Rightarrow>
               (case cache_setitem (cache s2) k v of
                  Some c \<Rightarrow> (Return v, s2\<lparr>cache := c\<rparr>)
                | None \<Rightarrow> (Return v, s2))))"

definition cached_unlocked_info_wrapper_among ::
  "(('k, 'v, 'w) wstate \<Rightarrow> ('k, 'v, 'w) wstate) \<Rightarrow> ('a, 'v, 'e, 'w) pyfunc \<Rightarrow> ('a \<Rightarrow> 'k) \<Rightarrow> 'a
     \<Rightarrow> ('k, 'v, 'w) wstate \<Rightarrow> ('v, 'e) outcome \<times> ('k, 'v, 'w) wstate" where
  "cached_unlocked_info_wrapper_among others func key a s =
     (let k = key a in
      case cache_getitem (cache s) k of
        Some result \<Rightarrow> (Return result, s\<lparr>hits := hits s + 1\<rparr>)
      | None \<Rightarrow>
          (case call_func func a (others (s\<lparr>misses := misses s + 1\<rparr>)) of
             (Inl e, s2) \<Rightarrow> (Raise e, s2)
           | (Inr v, s2) \<Rightarrow>
               (case cache_setitem (cache s2) k v of
                  Some c \<Rightarrow> (Return v, s2\<lparr>cache := c\<rparr>)
                | None \<Rightarrow> (Return v, s2))))"

definition cached_unlocked_info_cache_clear :: "('k, 'v, 'w) wstate \<Rightarrow> ('k, 'v, 'w) wstate" where
  "cached_unlocked_info_cache_clear s = s\<lparr>cache := cache_clear_all (cache s), hits := 0, misses := 0\<rparr>"

definition cached_unlocked_info_cache_info :: "(nat \<Rightarrow> nat \<Rightarrow> 'i) \<Rightarrow> ('k, 'v, 'w) wstate \<Rightarrow> 'i" where
  "cached_unlocked_info_cache_info info s = info (hits s) (misses s)"

subsection \<open>\<^verbatim>\<open>_uncached_info\<close>\<close>

definition uncached_info_wrapper ::
  "('a, 'v, 'e, 'w) pyfunc \<Rightarrow> 'a \<Rightarrow> ('k, 'v, 'w) wstate \<Rightarrow> ('v, 'e) outcome \<times> ('k, 'v, 'w) wstate" where
  "uncached_info_wrapper func a s =
     (case call_func func a (s\<lparr>misses := misses s + 1\<rparr>) of
        (Inl e, s2) \<Rightarrow> (Raise e, s2)
      | (Inr v, s2) \<Rightarrow> (Return v, s2))"

definition uncached_info_wrapper_among ::
  "(('k, 'v, 'w) wstate \<Rightarrow> ('k, 'v, 'w) wstate) \<Rightarrow> ('a, 'v, 'e, 'w) pyfunc \<Rightarrow> 'a
     \<Rightarrow> ('k, 'v, 'w) wstate \<Rightarrow> ('v, 'e) outcome \<times> ('k, 'v, 'w) wstate" where
  "uncached_info_wrapper_among others func a s =
     (case call_func func a (others (s\<lparr>misses := misses s + 1\<rparr>)) of
        (Inl e, s2) \<Rightarrow> (Raise e, s2)
      | (Inr v, s2) \<Rightarrow> (Return v, s2))"

definition uncached_info_cache_clear :: "('k, 'v, 'w) wstate \<Rightarrow> ('k, 'v, 'w) wstate" where
  "uncached_info_cache_clear s = s\<lparr>misses := 0\<rparr>"

definition uncached_info_cache_info :: "(nat \<Rightarrow> nat \<Rightarrow> 'i) \<Rightarrow> ('k, 'v, 'w) wstate \<Rightarrow> 'i" where
  "uncached_info_cache_info info s = info 0 (misses s)"

subsection \<open>\<^verbatim>\<open>_cached_locked\<close>\<close>

definition cached_locked_wrapper ::
  "('a, 'v, 'e, 'w) pyfunc \<Rightarrow> ('a \<Rightarrow> 'k) \<Rightarrow> 'a \<Rightarrow> ('k, 'v, 'w) wstate
     \<Rightarrow> ('v, 'e) outcome \<times> ('k, 'v, 'w) wstate" where
  "cached_locked_wrapper func key a s =
     (let k = key a in
      case cache_getitem (cache s) k of
        Some result \<Rightarrow> (Return result, s)
      | None \<Rightarrow>
          (case call_func func a s of
             (Inl e, s2) \<Rightarrow> (Raise e, s2)
           | (Inr v, s2) \<Rightarrow> (case locked_store k v s2 of (r, s3) \<Rightarrow> (Return r, s3))))"

definition cached_locked_wrapper_among ::
  "(('k, 'v, 'w) wstate \<Rightarrow> ('k, 'v, 'w) wstate) \<Rightarrow> ('a, 'v, 'e, 'w) pyfunc \<Rightarrow> ('a \<Rightarrow> 'k) \<Rightarrow> 'a
     \<Rightarrow> ('k, 'v, 'w) wstate \<Rightarrow> ('v, 'e) outcome \<times> ('k, 'v, 'w) wstate" where
  "cached_locked_wrapper_among others func key a s =
     (let k = key a in
      case cache_getitem (cache s) k of
        Some result \<Rightarrow> (Return result, s)
      | None \<Rightarrow>
          (case call_func func a (others s) of
             (Inl e, s2) \<Rightarrow> (Raise e, s2)
           | (Inr v, s2) \<Rightarrow> (case locked_store k v s2 of (r, s3) \<Rightarrow> (Return r, s3))))"

definition cached_locked_cache_clear :: "('k, 'v, 'w) wstate \<Rightarrow> ('k, 'v, 'w) wstate" where
  "cached_locked_cache_clear s = s\<lparr>cache := cache_clear_all (cache s)\<rparr>"

subsection \<open>\<^verbatim>\<open>_cached_unlocked\<close>\<close>

definition cached_unlocked_wrapper ::
  "('a, 'v, 'e, 'w) pyfunc \<Rightarrow> ('a \<Rightarrow> 'k) \<Rightarrow> 'a \<Rightarrow> ('k, 'v, 'w) wstate
     \<Rightarrow> ('v, 'e) outcome \<times> ('k, 'v, 'w) wstate" where
  "cached_unlocked_wrapper func key a s =
     (let k = key a in
      case cache_getitem (cache s) k of
        Some result \<Rightarrow> (Return result, s)
      | None \<Rightarrow>
          (case call_func func a s of
             (Inl e, s2) \<Rightarrow> (Raise e, s2)
           | (Inr v, s2) \<Rightarrow>
               (case cache_setitem (cache s2) k v of
                  Some c \<Rightarrow> (Return v, s2\<lparr>cache := c\<rparr>)
                | None \<Rightarrow> (Return v, s2))))"

definition cached_unlocked_wrapper_among ::
  "(('k, 'v, 'w) wstate \<Rightarrow> ('k, 'v, 'w) wstate) \<Rightarrow> ('a, 'v, 'e, 'w) pyfunc \<Rightarrow> ('a \<Rightarrow> 'k) \<Rightarrow> 'a
     \<Rightarrow> ('k, 'v, 'w) wstate \<Rightarrow> ('v, 'e) outcome \<times> ('k, 'v, 'w) wstate" where
  "cached_unlocked_wrapper_among others func key a s =
     (let k = key a in
      case cache_getitem (cache s) k of
        Some result \<Rightarrow> (Return result, s)
      | None \<Rightarrow>
          (case call_func func a (others s) of
             (Inl e, s2) \<Rightarrow> (Raise e, s2)
           | (Inr v, s2) \<Rightarrow>
               (case cache_setitem (cache s2) k v of
                  Some c \<Rightarrow> (Return v, s2\<lparr>cache := c\<rparr>)
                | None \<Rightarrow> (Return v, s2))))"

definition cached_unlocked_cache_clear :: "('k, 'v, 'w) wstate \<Rightarrow> ('k, 'v, 'w) wstate" where
  "cached_unlocked_cache_clear s = s\<lparr>cache := cache_clear_all (cache s)\<rparr>"

subsection \<open>\<^verbatim>\<open>_uncached\<close>\<close>

definition uncached_wrapper ::
  "('a, 'v, 'e, 'w) pyfunc \<Rightarrow> 'a \<Rightarrow> ('k, 'v, 'w) wstate \<Rightarrow> ('v, 'e) outcome \<times> ('k, 'v, 'w) wstate" where
  "uncached_wrapper func a s =
     (case call_func func a s of
        (Inl e, s2) \<Rightarrow> (Raise e, s2)
      | (Inr v, s2) \<Rightarrow> (Return v, s2))"

definition uncached_wrapper_among ::
  "(('k, 'v, 'w) wstate \<Rightarrow> ('k, 'v, 'w) wstate) \<Rightarrow> ('a, 'v, 'e, 'w) pyfunc \<Rightarrow> 'a
     \<Rightarrow> ('k, 'v, 'w) wstate \<Rightarrow> ('v, 'e) outcome \<times> ('k, 'v, 'w) wstate" where
  "uncached_wrapper_among others func a s =
     (case call_func func a (others s) of
        (Inl e, s2) \<Rightarrow> (Raise e, s2)
      | (Inr v, s2) \<Rightarrow> (Return v, s2))"

definition uncached_cache_clear :: "('k, 'v, 'w) wstate \<Rightarrow> ('k, 'v, 'w) wstate" where
  "uncached_cache_clear s = s"

section \<open>\<^verbatim>\<open>_cached_wrapper\<close>: choosing the strategy\<close>

text \<open>
  The lock argument as \<^verbatim>\<open>_cached_wrapper\<close> inspects it: the two \<^verbatim>\<open>hasattr\<close> tests.
\<close>

record lock_obj =
  has_wait_for :: bool
  has_notify_all :: bool

text \<open>
  What \<^verbatim>\<open>_cached_wrapper\<close> returns: the callable with its \<^verbatim>\<open>cache_clear\<close> and
  \<^verbatim>\<open>cache_info\<close> attributes (\<open>None\<close> when \<^verbatim>\<open>wrapper.cache_info = None\<close>), and the
  lock or condition that the closure holds (\<open>None\<close> for the strategies without one).
  The field \<open>call\<close> is the call with no other caller running; \<open>None\<close> there is a
  call that never returns. The field \<open>call_among\<close> is the call among other code;
  \<open>None\<close> there is a caller that has to wait.
\<close>

record ('a, 'k, 'v, 'e, 'w, 'i) wrapper =
  call :: "'a \<Rightarrow> ('k, 'v, 'w) wstate \<Rightarrow> (('v, 'e) outcome \<times> ('k, 'v, 'w) wstate) option"
  call_among :: "(('k, 'v, 'w) wstate \<Rightarrow> ('k, 'v, 'w) wstate) \<Rightarrow> 'a \<Rightarrow> ('k, 'v, 'w) wstate
    \<Rightarrow> (('v, 'e) outcome \<times> ('k, 'v, 'w) wstate) option"
  cache_clear :: "('k, 'v, 'w) wstate \<Rightarrow> ('k, 'v, 'w) wstate"
  cache_info :: "(('k, 'v, 'w) wstate \<Rightarrow> 'i) option"
  wrapper_lock :: "lock_obj option"

definition cached_cond_info ::
  "('a, 'v, 'e, 'w) pyfunc \<Rightarrow> ('a \<Rightarrow> 'k) \<Rightarrow> lock_obj \<Rightarrow> (nat \<Rightarrow> nat \<Rightarrow> 'i)
     \<Rightarrow> ('a, 'k, 'v, 'e, 'w, 'i) wrapper" where
  "cached_cond_info func key cond info =
     \<lparr>call = cached_cond_info_wrapper func key,
      call_among = (\<lambda>others. cached_cond_info_wrapper_among others func key),
      cache_clear = cached_cond_info_cache_clear,
      cache_info = Some (cached_cond_info_cache_info info),
      wrapper_lock = Some cond\<rparr>"

definition cached_locked_info ::
  "('a, 'v, 'e, 'w) pyfunc \<Rightarrow> ('a \<Rightarrow> 'k) \<Rightarrow> lock_obj \<Rightarrow> (nat \<Rightarrow> nat \<Rightarrow> 'i)
     \<Rightarrow> ('a, 'k, 'v, 'e, 'w, 'i) wrapper" where
  "cached_locked_info func key lock info =
     \<lparr>call = (\<lambda>a s. Some (cached_locked_info_wrapper func key a s)),
      call_among = (\<lambda>others a s. Some (cached_locked_info_wrapper_among others func key a s)),
      cache_clear = cached_locked_info_cache_clear,
      cache_info = Some (cached_locked_info_cache_info info),
      wrapper_lock = Some lock\<rparr>"

definition cached_unlocked_info ::
  "('a, 'v, 'e, 'w) pyfunc \<Rightarrow> ('a \<Rightarrow> 'k) \<Rightarrow> (nat \<Rightarrow> nat \<Rightarrow> 'i) \<Rightarrow> ('a, 'k, 'v, 'e, 'w, 'i) wrapper" where
  "cached_unlocked_info func key info =
     \<lparr>call = (\<lambda>a s. Some (cached_unlocked_info_wrapper func key a s)),
      call_among = (\<lambda>others a s. Some (cached_unlocked_info_wrapper_among others func key a s)),
      cache_clear = cached_unlocked_info_cache_clear,
      cache_info = Some (cached_unlocked_info_cache_info info),
      wrapper_lock = None\<rparr>"

definition uncached_info ::
  "('a, 'v, 'e, 'w) pyfunc \<Rightarrow> (nat \<Rightarrow> nat \<Rightarrow> 'i) \<Rightarrow> ('a, 'k, 'v, 'e, 'w, 'i) wrapper" where
  "uncached_info func info =
     \<lparr>call = (\<lambda>a s. Some (uncached_info_wrapper func a s)),
      call_among = (\<lambda>others a s. Some (uncached_info_wrapper_among others func a s)),
      cache_clear = uncached_info_cache_clear,
      cache_info = Some (uncached_info_cache_info info),
      wrapper_lock = None\<rparr>"

definition cached_locked ::
  "('a, 'v, 'e, 'w) pyfunc \<Rightarrow> ('a \<Rightarrow> 'k) \<Rightarrow> lock_obj \<Rightarrow> ('a, 'k, 'v, 'e, 'w, 'i) wrapper" where
  "cached_locked func key lock =
     \<lparr>call = (\<lambda>a s. Some (cached_locked_wrapper func key a s)),
      call_among = (\<lambda>others a s. Some (cached_locked_wrapper_among others func key a s)),
      cache_clear = cached_locked_cache_clear,
      cache_info = None,
      wrapper_lock = Some lock\<rparr>"

definition cached_unlocked ::
  "('a, 'v, 'e, 'w) pyfunc \<Rightarrow> ('a \<Rightarrow> 'k) \<Rightarrow> ('a, 'k, 'v, 'e, 'w, 'i) wrapper" where
  "cached_unlocked func key =
     \<lparr>call = (\<lambda>a s. Some (cached_unlocked_wrapper func key a s)),
      call_among = (\<lambda>others a s. Some (cached_unlocked_wrapper_among others func key a s)),
      cache_clear = cached_unlocked_cache_clear,
      cache_info = None,
      wrapper_lock = None\<rparr>"

definition uncached :: "('a, 'v, 'e, 'w) pyfunc \<Rightarrow> ('a, 'k, 'v, 'e, 'w, 'i) wrapper" where
  "uncached func =
     \<lparr>call = (\<lambda>a s. Some (uncached_wrapper func a s)),
      call_among = (\<lambda>others a s. Some (uncached_wrapper_among others func a s)),
      cache_clear = uncached_cache_clear,
      cache_info = None,
      wrapper_lock = None\<rparr>"

text \<open>
  The cache argument is a reference of which only the presence is inspected (the
  contents live in the wrapper state); the \<^verbatim>\<open>cond\<close> argument is never read.
\<close>

definition cached_wrapper ::
  "('a, 'v, 'e, 'w) pyfunc \<Rightarrow> 'c option \<Rightarrow> ('a \<Rightarrow> 'k) \<Rightarrow> lock_obj option \<Rightarrow> 'd option
     \<Rightarrow> (nat \<Rightarrow> nat \<Rightarrow> 'i) option \<Rightarrow> ('a, 'k, 'v, 'e, 'w, 'i) wrapper" where
  "cached_wrapper func cache_ref key lock cond info =
     (case info of
        Some mk \<Rightarrow>
          (case cache_ref of
             None \<Rightarrow> uncached_info func mk
           | Some _ \<Rightarrow>
               (case lock of
                  None \<Rightarrow> cached_unlocked_info func key mk
                | Some l \<Rightarrow>
                    if has_wait_for l \<and> has_notify_all l
                    then cached_cond_info func key l mk
                    else cached_locked_info func key l mk))
      | None \<Rightarrow>
          (case cache_ref of
             None \<Rightarrow> uncached func
           | Some _ \<Rightarrow>
               (case lock of
                  None \<Rightarrow> cached_unlocked func key
                | Some l \<Rightarrow> cached_locked func key l)))"

section \<open>The method-bound variants\<close>

text \<open>
  The cache and the lock are resolved per call by accessor functions of the owning
  instance. An accessor returns a reference: \<open>caches\<close> is the store of the cache
  objects by reference, so that two instances may share one cache, and \<open>acquired\<close>
  counts for each lock how often it has been acquired. \<^verbatim>\<open>cache(self)\<close> returning
  \<^verbatim>\<open>None\<close> is \<open>None\<close>. The accessors are the arguments \<^verbatim>\<open>cache\<close> and \<^verbatim>\<open>lock\<close> of
  the source, named \<open>cache_of\<close> and \<open>lock_of\<close> here.
\<close>

record ('c, 'l, 'k, 'v, 'w) mstate =
  caches :: "'c \<Rightarrow> ('k, 'v) cache"
  acquired :: "'l \<Rightarrow> nat"
  mworld :: 'w

definition call_method ::
  "('o \<Rightarrow> ('a, 'v, 'e, 'w) pyfunc) \<Rightarrow> 'o \<Rightarrow> 'a \<Rightarrow> ('c, 'l, 'k, 'v, 'w) mstate
     \<Rightarrow> ('e + 'v) \<times> ('c, 'l, 'k, 'v, 'w) mstate" where
  "call_method method self a s =
     (case method self a (mworld s) of (r, w) \<Rightarrow> (r, s\<lparr>mworld := w\<rparr>))"

definition acquire :: "'l \<Rightarrow> ('c, 'l, 'k, 'v, 'w) mstate \<Rightarrow> ('c, 'l, 'k, 'v, 'w) mstate" where
  "acquire l s = s\<lparr>acquired := (acquired s)(l := acquired s l + 1)\<rparr>"

definition cachedmethod_locked_wrapper ::
  "('o \<Rightarrow> ('a, 'v, 'e, 'w) pyfunc) \<Rightarrow> ('o \<Rightarrow> 'c option) \<Rightarrow> ('o \<Rightarrow> 'a \<Rightarrow> 'k) \<Rightarrow> ('o \<Rightarrow> 'l)
     \<Rightarrow> 'o \<Rightarrow> 'a \<Rightarrow> ('c, 'l, 'k, 'v, 'w) mstate
     \<Rightarrow> ('v, 'e) outcome \<times> ('c, 'l, 'k, 'v, 'w) mstate" where
  "cachedmethod_locked_wrapper method cache_of key lock_of self a s =
     (case cache_of self of
        None \<Rightarrow>
          (case call_method method self a s of
             (Inl e, s2) \<Rightarrow> (Raise e, s2)
           | (Inr v, s2) \<Rightarrow> (Return v, s2))
      | Some c \<Rightarrow>
          (let k = key self a; s1 = acquire (lock_of self) s in
           case cache_getitem (caches s1 c) k of
             Some result \<Rightarrow> (Return result, s1)
           | None \<Rightarrow>
               (case call_method method self a s1 of
                  (Inl e, s2) \<Rightarrow> (Raise e, s2)
                | (Inr v, s2) \<Rightarrow>
                    (let s3 = acquire (lock_of self) s2 in
                     case cache_setdefault (caches s3 c) k v of
                       Some (r, c') \<Rightarrow> (Return r, s3\<lparr>caches := (caches s3)(c := c')\<rparr>)
                     | None \<Rightarrow> (Return v, s3)))))"

definition cachedmethod_locked_wrapper_among ::
  "(('c, 'l, 'k, 'v, 'w) mstate \<Rightarrow> ('c, 'l, 'k, 'v, 'w) mstate)
     \<Rightarrow> ('o \<Rightarrow> ('a, 'v, 'e, 'w) pyfunc) \<Rightarrow> ('o \<Rightarrow> 'c option) \<Rightarrow> ('o \<Rightarrow> 'a \<Rightarrow> 'k) \<Rightarrow> ('o \<Rightarrow> 'l)
     \<Rightarrow> 'o \<Rightarrow> 'a \<Rightarrow> ('c, 'l, 'k, 'v, 'w) mstate
     \<Rightarrow> ('v, 'e) outcome \<times> ('c, 'l, 'k, 'v, 'w) mstate" where
  "cachedmethod_locked_wrapper_among others method cache_of key lock_of self a s =
     (case cache_of self of
        None \<Rightarrow>
          (case call_method method self a (others s) of
             (Inl e, s2) \<Rightarrow> (Raise e, s2)
           | (Inr v, s2) \<Rightarrow> (Return v, s2))
      | Some c \<Rightarrow>
          (let k = key self a; s1 = acquire (lock_of self) s in
           case cache_getitem (caches s1 c) k of
             Some result \<Rightarrow> (Return result, s1)
           | None \<Rightarrow>
               (case call_method method self a (others s1) of
                  (Inl e, s2) \<Rightarrow> (Raise e, s2)
                | (Inr v, s2) \<Rightarrow>
                    (let s3 = acquire (lock_of self) s2 in
                     case cache_setdefault (caches s3 c) k v of
                       Some (r, c') \<Rightarrow> (Return r, s3\<lparr>caches := (caches s3)(c := c')\<rparr>)
                     | None \<Rightarrow> (Return v, s3)))))"

definition cachedmethod_locked_cache_clear ::
  "('o \<Rightarrow> 'c option) \<Rightarrow> ('o \<Rightarrow> 'l) \<Rightarrow> 'o \<Rightarrow> ('c, 'l, 'k, 'v, 'w) mstate
     \<Rightarrow> ('c, 'l, 'k, 'v, 'w) mstate" where
  "cachedmethod_locked_cache_clear cache_of lock_of self s =
     (case cache_of self of
        None \<Rightarrow> s
      | Some c \<Rightarrow>
          (let s1 = acquire (lock_of self) s
           in s1\<lparr>caches := (caches s1)(c := cache_clear_all (caches s1 c))\<rparr>))"

definition cachedmethod_unlocked_wrapper ::
  "('o \<Rightarrow> ('a, 'v, 'e, 'w) pyfunc) \<Rightarrow> ('o \<Rightarrow> 'c option) \<Rightarrow> ('o \<Rightarrow> 'a \<Rightarrow> 'k)
     \<Rightarrow> 'o \<Rightarrow> 'a \<Rightarrow> ('c, 'l, 'k, 'v, 'w) mstate
     \<Rightarrow> ('v, 'e) outcome \<times> ('c, 'l, 'k, 'v, 'w) mstate" where
  "cachedmethod_unlocked_wrapper method cache_of key self a s =
     (case cache_of self of
        None \<Rightarrow>
          (case call_method method self a s of
             (Inl e, s2) \<Rightarrow> (Raise e, s2)
           | (Inr v, s2) \<Rightarrow> (Return v, s2))
      | Some c \<Rightarrow>
          (let k = key self a in
           case cache_getitem (caches s c) k of
             Some result \<Rightarrow> (Return result, s)
           | None \<Rightarrow>
               (case call_method method self a s of
                  (Inl e, s2) \<Rightarrow> (Raise e, s2)
                | (Inr v, s2) \<Rightarrow>
                    (case cache_setitem (caches s2 c) k v of
                       Some c' \<Rightarrow> (Return v, s2\<lparr>caches := (caches s2)(c := c')\<rparr>)
                     | None \<Rightarrow> (Return v, s2)))))"

definition cachedmethod_unlocked_cache_clear ::
  "('o \<Rightarrow> 'c option) \<Rightarrow> 'o \<Rightarrow> ('c, 'l, 'k, 'v, 'w) mstate \<Rightarrow> ('c, 'l, 'k, 'v, 'w) mstate" where
  "cachedmethod_unlocked_cache_clear cache_of self s =
     (case cache_of self of
        None \<Rightarrow> s
      | Some c \<Rightarrow> s\<lparr>caches := (caches s)(c := cache_clear_all (caches s c))\<rparr>)"

text \<open>
  The state a function wrapper has when it is given the cache \<open>c\<close> of the store: the
  method-bound variants keep no counters and no pending set.
\<close>

definition instance_view :: "'c \<Rightarrow> ('c, 'l, 'k, 'v, 'w) mstate \<Rightarrow> ('k, 'v, 'w) wstate" where
  "instance_view c s = fresh (caches s c) (mworld s)"

section \<open>Several callers\<close>

text \<open>
  Callers are numbered. Each \<^verbatim>\<open>with lock:\<close> (or \<^verbatim>\<open>with cond:\<close>) block of the source
  is one transition of the caller that runs it, since the lock excludes every other
  block on the same lock; the call of the wrapped function is a transition of its own,
  outside any lock. A schedule is a list of actions: a caller that is not inside a
  call starts one, a caller takes its next transition, or \<^verbatim>\<open>cache_clear()\<close> runs.
\<close>

datatype 'a action = Invoke nat 'a | Step nat | Clear

fun is_clear :: "'a action \<Rightarrow> bool" where
  "is_clear Clear = True"
| "is_clear _ = False"

subsection \<open>Callers of \<^verbatim>\<open>_cached_locked_info\<close>\<close>

datatype ('a, 'k, 'v, 'e) lthread =
  LIdle | LStart 'a | LCompute 'a 'k | LStore 'k 'v | LDone "('v, 'e) outcome"

record ('a, 'k, 'v, 'e, 'w) lsys =
  lshared :: "('k, 'v, 'w) wstate"
  lthreads :: "nat \<Rightarrow> ('a, 'k, 'v, 'e) lthread"

definition locked_info_step ::
  "('a, 'v, 'e, 'w) pyfunc \<Rightarrow> ('a \<Rightarrow> 'k) \<Rightarrow> nat \<Rightarrow> ('a, 'k, 'v, 'e, 'w) lsys
     \<Rightarrow> ('a, 'k, 'v, 'e, 'w) lsys" where
  "locked_info_step func key t sys =
     (case lthreads sys t of
        LStart a \<Rightarrow>
          (case locked_info_lookup (key a) (lshared sys) of
             (Some result, s1) \<Rightarrow>
               \<lparr>lshared = s1, lthreads = (lthreads sys)(t := LDone (Return result))\<rparr>
           | (None, s1) \<Rightarrow>
               \<lparr>lshared = s1, lthreads = (lthreads sys)(t := LCompute a (key a))\<rparr>)
      | LCompute a k \<Rightarrow>
          (case call_func func a (lshared sys) of
             (Inl e, s2) \<Rightarrow> \<lparr>lshared = s2, lthreads = (lthreads sys)(t := LDone (Raise e))\<rparr>
           | (Inr v, s2) \<Rightarrow> \<lparr>lshared = s2, lthreads = (lthreads sys)(t := LStore k v)\<rparr>)
      | LStore k v \<Rightarrow>
          (case locked_store k v (lshared sys) of
             (r, s3) \<Rightarrow> \<lparr>lshared = s3, lthreads = (lthreads sys)(t := LDone (Return r))\<rparr>)
      | _ \<Rightarrow> sys)"

definition locked_info_act ::
  "('a, 'v, 'e, 'w) pyfunc \<Rightarrow> ('a \<Rightarrow> 'k) \<Rightarrow> 'a action \<Rightarrow> ('a, 'k, 'v, 'e, 'w) lsys
     \<Rightarrow> ('a, 'k, 'v, 'e, 'w) lsys" where
  "locked_info_act func key act sys =
     (case act of
        Invoke t a \<Rightarrow>
          (case lthreads sys t of
             LIdle \<Rightarrow> sys\<lparr>lthreads := (lthreads sys)(t := LStart a)\<rparr>
           | LDone _ \<Rightarrow> sys\<lparr>lthreads := (lthreads sys)(t := LStart a)\<rparr>
           | _ \<Rightarrow> sys)
      | Step t \<Rightarrow> locked_info_step func key t sys
      | Clear \<Rightarrow> sys\<lparr>lshared := cached_locked_info_cache_clear (lshared sys)\<rparr>)"

definition locked_info_run ::
  "('a, 'v, 'e, 'w) pyfunc \<Rightarrow> ('a \<Rightarrow> 'k) \<Rightarrow> 'a action list \<Rightarrow> ('a, 'k, 'v, 'e, 'w) lsys
     \<Rightarrow> ('a, 'k, 'v, 'e, 'w) lsys" where
  "locked_info_run func key acts sys = fold (locked_info_act func key) acts sys"

definition locked_info_init :: "('k, 'v) cache \<Rightarrow> 'w \<Rightarrow> ('a, 'k, 'v, 'e, 'w) lsys" where
  "locked_info_init c w = \<lparr>lshared = fresh c w, lthreads = (\<lambda>_. LIdle)\<rparr>"

subsection \<open>Callers of \<^verbatim>\<open>_cached_cond_info\<close>\<close>

text \<open>
  Modelled from the spec: the condition primitive is not part of \<^verbatim>\<open>_decorators.py\<close>.
  Its wait-until-predicate suspends the caller, releasing the lock, while the predicate
  is false; a suspended caller (\<open>CWaiting\<close>) takes no transition until a broadcast
  wake makes it \<open>CWoken\<close>, after which it takes the lock again and tests the predicate
  again.
\<close>

datatype ('a, 'k, 'v, 'e) cthread =
  CIdle | CStart 'a | CWaiting 'a 'k | CWoken 'a 'k | CCompute 'a 'k | CStore 'k 'v
  | CFinally 'k "('v, 'e) outcome" | CDone "('v, 'e) outcome"

record ('a, 'k, 'v, 'e, 'w) csys =
  cshared :: "('k, 'v, 'w) wstate"
  cthreads :: "nat \<Rightarrow> ('a, 'k, 'v, 'e) cthread"

definition notify_all ::
  "(nat \<Rightarrow> ('a, 'k, 'v, 'e) cthread) \<Rightarrow> (nat \<Rightarrow> ('a, 'k, 'v, 'e) cthread)" where
  "notify_all ths = (\<lambda>u. case ths u of CWaiting a k \<Rightarrow> CWoken a k | th \<Rightarrow> th)"

definition cond_info_wait_for ::
  "nat \<Rightarrow> 'a \<Rightarrow> 'k \<Rightarrow> ('a, 'k, 'v, 'e, 'w) csys \<Rightarrow> ('a, 'k, 'v, 'e, 'w) csys" where
  "cond_info_wait_for t a k sys =
     (case cond_info_enter k (cshared sys) of
        MustWait \<Rightarrow> sys\<lparr>cthreads := (cthreads sys)(t := CWaiting a k)\<rparr>
      | Hit result s1 \<Rightarrow>
          \<lparr>cshared = s1, cthreads = (cthreads sys)(t := CDone (Return result))\<rparr>
      | Miss s1 \<Rightarrow> \<lparr>cshared = s1, cthreads = (cthreads sys)(t := CCompute a k)\<rparr>)"

definition cond_info_step ::
  "('a, 'v, 'e, 'w) pyfunc \<Rightarrow> ('a \<Rightarrow> 'k) \<Rightarrow> nat \<Rightarrow> ('a, 'k, 'v, 'e, 'w) csys
     \<Rightarrow> ('a, 'k, 'v, 'e, 'w) csys" where
  "cond_info_step func key t sys =
     (case cthreads sys t of
        CStart a \<Rightarrow> cond_info_wait_for t a (key a) sys
      | CWoken a k \<Rightarrow> cond_info_wait_for t a k sys
      | CCompute a k \<Rightarrow>
          (case call_func func a (cshared sys) of
             (Inl e, s2) \<Rightarrow>
               \<lparr>cshared = s2, cthreads = (cthreads sys)(t := CFinally k (Raise e))\<rparr>
           | (Inr v, s2) \<Rightarrow> \<lparr>cshared = s2, cthreads = (cthreads sys)(t := CStore k v)\<rparr>)
      | CStore k v \<Rightarrow>
          \<lparr>cshared = cond_info_store k v (cshared sys),
           cthreads = (cthreads sys)(t := CFinally k (Return v))\<rparr>
      | CFinally k out \<Rightarrow>
          (case cond_info_finally k (cshared sys) of
             Some s' \<Rightarrow>
               \<lparr>cshared = s', cthreads = notify_all ((cthreads sys)(t := CDone out))\<rparr>
           | None \<Rightarrow> sys\<lparr>cthreads := (cthreads sys)(t := CDone RaiseKeyError)\<rparr>)
      | _ \<Rightarrow> sys)"

definition cond_info_act ::
  "('a, 'v, 'e, 'w) pyfunc \<Rightarrow> ('a \<Rightarrow> 'k) \<Rightarrow> 'a action \<Rightarrow> ('a, 'k, 'v, 'e, 'w) csys
     \<Rightarrow> ('a, 'k, 'v, 'e, 'w) csys" where
  "cond_info_act func key act sys =
     (case act of
        Invoke t a \<Rightarrow>
          (case cthreads sys t of
             CIdle \<Rightarrow> sys\<lparr>cthreads := (cthreads sys)(t := CStart a)\<rparr>
           | CDone _ \<Rightarrow> sys\<lparr>cthreads := (cthreads sys)(t := CStart a)\<rparr>
           | _ \<Rightarrow> sys)
      | Step t \<Rightarrow> cond_info_step func key t sys
      | Clear \<Rightarrow> sys\<lparr>cshared := cached_cond_info_cache_clear (cshared sys)\<rparr>)"

definition cond_info_run ::
  "('a, 'v, 'e, 'w) pyfunc \<Rightarrow> ('a \<Rightarrow> 'k) \<Rightarrow> 'a action list \<Rightarrow> ('a, 'k, 'v, 'e, 'w) csys
     \<Rightarrow> ('a, 'k, 'v, 'e, 'w) csys" where
  "cond_info_run func key acts sys = fold (cond_info_act func key) acts sys"

definition cond_info_init :: "('k, 'v) cache \<Rightarrow> 'w \<Rightarrow> ('a, 'k, 'v, 'e, 'w) csys" where
  "cond_info_init c w = \<lparr>cshared = fresh c w, cthreads = (\<lambda>_. CIdle)\<rparr>"

text \<open>The key a caller holds in the pending set: from its miss to its cleanup.\<close>

fun held_key :: "('a, 'k, 'v, 'e) cthread \<Rightarrow> 'k option" where
  "held_key (CCompute a k) = Some k"
| "held_key (CStore k v) = Some k"
| "held_key (CFinally k out) = Some k"
| "held_key _ = None"

fun unstored_key :: "('a, 'k, 'v, 'e) cthread \<Rightarrow> 'k option" where
  "unstored_key (CCompute a k) = Some k"
| "unstored_key (CStore k v) = Some k"
| "unstored_key _ = None"

fun waiting_key :: "('a, 'k, 'v, 'e) cthread \<Rightarrow> 'k option" where
  "waiting_key (CWaiting a k) = Some k"
| "waiting_key _ = None"

definition cond_inv :: "('a, 'k, 'v, 'e, 'w) csys \<Rightarrow> bool" where
  "cond_inv sys =
     ((\<forall>t k. held_key (cthreads sys t) = Some k \<longrightarrow> k \<in> pending (cshared sys)) \<and>
      (\<forall>t u k. held_key (cthreads sys t) = Some k \<and> held_key (cthreads sys u) = Some k
         \<longrightarrow> t = u) \<and>
      (\<forall>k \<in> pending (cshared sys). \<exists>t. held_key (cthreads sys t) = Some k) \<and>
      (\<forall>t k. waiting_key (cthreads sys t) = Some k \<longrightarrow> k \<in> pending (cshared sys)) \<and>
      (\<forall>t k. unstored_key (cthreads sys t) = Some k
         \<longrightarrow> cache_getitem (cache (cshared sys)) k = None))"

section \<open>Sequences of calls\<close>

text \<open>
  A single caller making one call after the other: \<open>call_seq\<close> runs the calls in order
  and collects their outcomes (\<open>None\<close> when one of them never returns), and
  \<open>func_seq\<close> is the same sequence of calls made to the wrapped function itself.
\<close>

fun call_seq :: "('a \<Rightarrow> 's \<Rightarrow> ('r \<times> 's) option) \<Rightarrow> 'a list \<Rightarrow> 's \<Rightarrow> ('r list \<times> 's) option" where
  "call_seq w [] s = Some ([], s)"
| "call_seq w (a # as) s =
     (case w a s of
        None \<Rightarrow> None
      | Some (r, s1) \<Rightarrow>
          (case call_seq w as s1 of
             None \<Rightarrow> None
           | Some (rs, s2) \<Rightarrow> Some (r # rs, s2)))"

fun func_seq :: "('a, 'v, 'e, 'w) pyfunc \<Rightarrow> 'a list \<Rightarrow> 'w \<Rightarrow> ('v, 'e) outcome list \<times> 'w" where
  "func_seq func [] w = ([], w)"
| "func_seq func (a # as) w =
     (case func a w of
        (r, w1) \<Rightarrow>
          (case func_seq func as w1 of
             (rs, w2) \<Rightarrow> ((case r of Inl e \<Rightarrow> Raise e | Inr v \<Rightarrow> Return v) # rs, w2)))"

text \<open>
  The strategies with a cache, whatever lock or condition they hold: those that keep
  statistics, and those that do not.
\<close>

definition stats_strategies ::
  "('a, 'v, 'e, 'w) pyfunc \<Rightarrow> ('a \<Rightarrow> 'k) \<Rightarrow> (nat \<Rightarrow> nat \<Rightarrow> 'i) \<Rightarrow> ('a, 'k, 'v, 'e, 'w, 'i) wrapper set" where
  "stats_strategies func key info =
     insert (cached_unlocked_info func key info)
       (range (\<lambda>lock. cached_locked_info func key lock info) \<union>
        range (\<lambda>cond. cached_cond_info func key cond info))"

definition plain_strategies ::
  "('a, 'v, 'e, 'w) pyfunc \<Rightarrow> ('a \<Rightarrow> 'k) \<Rightarrow> ('a, 'k, 'v, 'e, 'w, 'i) wrapper set" where
  "plain_strategies func key =
     insert (cached_unlocked func key) (range (\<lambda>lock. cached_locked func key lock))"

section \<open>Properties\<close>

lemmas cache_defs = cache_getitem_def cache_setitem_def cache_setdefault_def

lemmas cond_defs =
  cond_info_enter_def cond_info_store_def cond_info_finally_def cond_info_exit_def

lemmas clear_defs =
  cached_cond_info_cache_clear_def cached_locked_info_cache_clear_def
  cached_unlocked_info_cache_clear_def uncached_info_cache_clear_def
  cached_locked_cache_clear_def cached_unlocked_cache_clear_def uncached_cache_clear_def
  cache_clear_all_def

lemmas info_defs =
  cached_cond_info_cache_info_def cached_locked_info_cache_info_def
  cached_unlocked_info_cache_info_def uncached_info_cache_info_def

lemmas strategy_defs =
  uncached_info_def uncached_def cached_unlocked_info_def cached_unlocked_def
  cached_cond_info_def cached_locked_info_def cached_locked_def

subsection \<open>Strategy selection\<close>

text \<open>
  The strategies differ as wrappers. Those without a lock hold none; only the strategies
  with a cache empty it on \<^verbatim>\<open>cache_clear\<close>; and only the Condition-Gated call waits
  when its key is pending.
\<close>

lemma clear_distinguishes:
  fixes clear :: "('k, 'v, 'w) wstate \<Rightarrow> ('k, 'v, 'w) wstate"
  assumes "\<And>s. items (cache (clear s)) = Map.empty" "\<And>s. cache (keep s) = cache s"
  shows "clear \<noteq> keep"
proof
  assume eq: "clear = keep"
  let ?s = "\<lparr>cache = \<lparr>items = (\<lambda>k. Some undefined), rejects = undefined\<rparr>,
             hits = 0, misses = 0, pending = {}, world = undefined\<rparr> :: ('k, 'v, 'w) wstate"
  have "items (cache (clear ?s)) = items (cache (keep ?s))" using eq by simp
  then have "Map.empty = (\<lambda>k :: 'k. Some (undefined :: 'v))" using assms by simp
  then show False by (simp add: fun_eq_iff)
qed

lemma uncached_distinct:
  fixes func :: "('a, 'v, 'e, 'w) pyfunc" and key :: "'a \<Rightarrow> 'k" and info :: "nat \<Rightarrow> nat \<Rightarrow> 'i"
  shows "(cached_unlocked func key :: ('a, 'k, 'v, 'e, 'w, 'i) wrapper) \<noteq> uncached func"
    and "cached_unlocked_info func key info \<noteq> uncached_info func info"
    and "cached_locked_info func key l info \<noteq> uncached_info func info"
    and "cached_cond_info func key l info \<noteq> uncached_info func info"
proof -
  have 1: "(cached_unlocked_cache_clear :: ('k, 'v, 'w) wstate \<Rightarrow> ('k, 'v, 'w) wstate)
      \<noteq> uncached_cache_clear"
    by (rule clear_distinguishes) (simp_all add: clear_defs)
  have 2: "(cached_unlocked_info_cache_clear :: ('k, 'v, 'w) wstate \<Rightarrow> ('k, 'v, 'w) wstate)
      \<noteq> uncached_info_cache_clear"
    by (rule clear_distinguishes) (simp_all add: clear_defs)
  have 3: "(cached_locked_info_cache_clear :: ('k, 'v, 'w) wstate \<Rightarrow> ('k, 'v, 'w) wstate)
      \<noteq> uncached_info_cache_clear"
    by (rule clear_distinguishes) (simp_all add: clear_defs)
  have 4: "(cached_cond_info_cache_clear :: ('k, 'v, 'w) wstate \<Rightarrow> ('k, 'v, 'w) wstate)
      \<noteq> uncached_info_cache_clear"
    by (rule clear_distinguishes) (simp_all add: clear_defs)
  show "(cached_unlocked func key :: ('a, 'k, 'v, 'e, 'w, 'i) wrapper) \<noteq> uncached func"
    using 1 by (simp add: strategy_defs)
  show "cached_unlocked_info func key info \<noteq> uncached_info func info"
    using 2 by (simp add: strategy_defs)
  show "cached_locked_info func key l info \<noteq> uncached_info func info"
    using 3 by (simp add: strategy_defs)
  show "cached_cond_info func key l info \<noteq> uncached_info func info"
    using 4 by (simp add: strategy_defs)
qed

lemma cond_locked_distinct:
  fixes func :: "('a, 'v, 'e, 'w) pyfunc" and key :: "'a \<Rightarrow> 'k" and info :: "nat \<Rightarrow> nat \<Rightarrow> 'i"
  shows "cached_cond_info func key l info \<noteq> cached_locked_info func key l' info"
proof
  assume eq: "cached_cond_info func key l info = cached_locked_info func key l' info"
  let ?s = "\<lparr>cache = undefined, hits = 0, misses = 0, pending = UNIV, world = undefined\<rparr>
      :: ('k, 'v, 'w) wstate"
  have "call (cached_cond_info func key l info) undefined ?s
      = call (cached_locked_info func key l' info) undefined ?s"
    using eq by simp
  then show False
    by (simp add: strategy_defs cached_cond_info_wrapper_def cond_info_enter_def)
qed

text \<open>
  C3. The strategy is a function of the arguments of \<^verbatim>\<open>_cached_wrapper\<close> alone: without
  a cache the wrapper is Uncached, with a cache and no lock it is Unlocked, each with
  statistics exactly when they are requested; with a cache, statistics and a lock that has
  both \<^verbatim>\<open>wait_for\<close> and \<^verbatim>\<open>notify_all\<close> it is Condition-Gated on that lock; with a
  cache and any other lock it is Locked on that lock; and a lock with both operations
  but no statistics gives plain Locked. The wrapper has a \<^verbatim>\<open>cache_info\<close> exactly when
  statistics are requested, and it holds the lock it was given. The strategies with
  statistics are four different wrappers, and so are the three without: exactly one
  strategy is chosen.
\<close>

theorem strategy_selection:
  fixes func :: "('a, 'v, 'e, 'w) pyfunc" and key :: "'a \<Rightarrow> 'k" and info :: "nat \<Rightarrow> nat \<Rightarrow> 'i"
    and c :: 'c and cond :: "'d option"
  shows
  "cached_wrapper func (None :: 'c option) key lock cond (Some info) = uncached_info func info \<and>
   cached_wrapper func (None :: 'c option) key lock cond None
     = (uncached func :: ('a, 'k, 'v, 'e, 'w, 'i) wrapper) \<and>
   cached_wrapper func (Some c) key None cond (Some info) = cached_unlocked_info func key info \<and>
   cached_wrapper func (Some c) key None cond None
     = (cached_unlocked func key :: ('a, 'k, 'v, 'e, 'w, 'i) wrapper) \<and>
   cached_wrapper func (Some c) key (Some l) cond (Some info) =
     (if has_wait_for l \<and> has_notify_all l then cached_cond_info func key l info
      else cached_locked_info func key l info) \<and>
   cached_wrapper func (Some c) key (Some l) cond None
     = (cached_locked func key l :: ('a, 'k, 'v, 'e, 'w, 'i) wrapper) \<and>
   (cache_info (cached_wrapper func cache_ref key lock cond info_opt
      :: ('a, 'k, 'v, 'e, 'w, 'i) wrapper) = None) = (info_opt = None) \<and>
   wrapper_lock (cached_wrapper func (Some c) key lock cond info_opt
      :: ('a, 'k, 'v, 'e, 'w, 'i) wrapper) = lock \<and>
   wrapper_lock (cached_wrapper func (None :: 'c option) key lock cond info_opt
      :: ('a, 'k, 'v, 'e, 'w, 'i) wrapper) = None \<and>
   (cached_locked func key l :: ('a, 'k, 'v, 'e, 'w, 'i) wrapper) \<noteq> cached_unlocked func key \<and>
   (cached_locked func key l :: ('a, 'k, 'v, 'e, 'w, 'i) wrapper) \<noteq> uncached func \<and>
   (cached_unlocked func key :: ('a, 'k, 'v, 'e, 'w, 'i) wrapper) \<noteq> uncached func \<and>
   cached_locked_info func key l info \<noteq> cached_unlocked_info func key info \<and>
   cached_cond_info func key l info \<noteq> cached_unlocked_info func key info \<and>
   cached_cond_info func key l info \<noteq> cached_locked_info func key l' info \<and>
   cached_unlocked_info func key info \<noteq> uncached_info func info \<and>
   cached_locked_info func key l info \<noteq> uncached_info func info \<and>
   cached_cond_info func key l info \<noteq> uncached_info func info"
proof -
  have sel: "cached_wrapper func (None :: 'c option) key lock cond (Some info) = uncached_info func info \<and>
   cached_wrapper func (None :: 'c option) key lock cond None
     = (uncached func :: ('a, 'k, 'v, 'e, 'w, 'i) wrapper) \<and>
   cached_wrapper func (Some c) key None cond (Some info) = cached_unlocked_info func key info \<and>
   cached_wrapper func (Some c) key None cond None
     = (cached_unlocked func key :: ('a, 'k, 'v, 'e, 'w, 'i) wrapper) \<and>
   cached_wrapper func (Some c) key (Some l) cond (Some info) =
     (if has_wait_for l \<and> has_notify_all l then cached_cond_info func key l info
      else cached_locked_info func key l info) \<and>
   cached_wrapper func (Some c) key (Some l) cond None
     = (cached_locked func key l :: ('a, 'k, 'v, 'e, 'w, 'i) wrapper)"
    by (simp add: cached_wrapper_def)
  have attr: "(cache_info (cached_wrapper func cache_ref key lock cond info_opt
      :: ('a, 'k, 'v, 'e, 'w, 'i) wrapper) = None) = (info_opt = None) \<and>
   wrapper_lock (cached_wrapper func (Some c) key lock cond info_opt
      :: ('a, 'k, 'v, 'e, 'w, 'i) wrapper) = lock \<and>
   wrapper_lock (cached_wrapper func (None :: 'c option) key lock cond info_opt
      :: ('a, 'k, 'v, 'e, 'w, 'i) wrapper) = None"
    by (simp add: cached_wrapper_def strategy_defs split: option.split)
  have lock: "(cached_locked func key l :: ('a, 'k, 'v, 'e, 'w, 'i) wrapper) \<noteq> cached_unlocked func key \<and>
   (cached_locked func key l :: ('a, 'k, 'v, 'e, 'w, 'i) wrapper) \<noteq> uncached func \<and>
   cached_locked_info func key l info \<noteq> cached_unlocked_info func key info \<and>
   cached_cond_info func key l info \<noteq> cached_unlocked_info func key info"
    by (simp add: strategy_defs)
  show ?thesis
    using sel attr lock
    by (simp add: uncached_distinct cond_locked_distinct)
qed

theorem strategy_selection_witness:
  "cached_wrapper (\<lambda>a w. (Inr a :: unit + nat, w :: unit)) (Some ()) (\<lambda>a. a)
      (Some \<lparr>has_wait_for = True, has_notify_all = True\<rparr>) (None :: unit option) (Some Pair)
     = cached_cond_info (\<lambda>a w. (Inr a, w)) (\<lambda>a. a)
         \<lparr>has_wait_for = True, has_notify_all = True\<rparr> Pair \<and>
   cached_wrapper (\<lambda>a w. (Inr a :: unit + nat, w :: unit)) (Some ()) (\<lambda>a. a)
      (Some \<lparr>has_wait_for = True, has_notify_all = True\<rparr>) (None :: unit option) None
     = (cached_locked (\<lambda>a w. (Inr a, w)) (\<lambda>a. a) \<lparr>has_wait_for = True, has_notify_all = True\<rparr>
         :: (nat, nat, nat, unit, unit, nat \<times> nat) wrapper) \<and>
   (cached_locked (\<lambda>a w. (Inr a :: unit + nat, w :: unit)) (\<lambda>a. a)
         \<lparr>has_wait_for = True, has_notify_all = True\<rparr>
       :: (nat, nat, nat, unit, unit, nat \<times> nat) wrapper)
     \<noteq> cached_unlocked (\<lambda>a w. (Inr a, w)) (\<lambda>a. a)"
  using strategy_selection [where func = "\<lambda>a w. (Inr a :: unit + nat, w :: unit)" and key = "\<lambda>a. a :: nat"
      and lock = None and cond = "None :: unit option" and info = "Pair :: nat \<Rightarrow> nat \<Rightarrow> nat \<times> nat"
      and c = "()" and l = "\<lparr>has_wait_for = True, has_notify_all = True\<rparr>"
      and l' = "\<lparr>has_wait_for = True, has_notify_all = True\<rparr>"
      and cache_ref = "Some ()" and info_opt = None]
  by simp

subsection \<open>\<^verbatim>\<open>cache_clear\<close>\<close>

text \<open>
  C6. For every wrapper that \<^verbatim>\<open>_cached_wrapper\<close> builds and every state, a second
  \<^verbatim>\<open>cache_clear\<close> changes nothing; when statistics are kept, \<^verbatim>\<open>cache_info\<close> right after
  a \<^verbatim>\<open>cache_clear\<close> is \<open>info 0 0\<close>, which is \<open>(0, 0)\<close> for the pairing \<open>info\<close>; and
  the \<^verbatim>\<open>cache_clear\<close> of each strategy with a cache leaves the cache empty. Counters and
  cache change in one transition (the single \<^verbatim>\<open>with\<close> block of the source).
\<close>

theorem cache_clear_idempotent_resets:
  fixes func :: "('a, 'v, 'e, 'w) pyfunc" and key :: "'a \<Rightarrow> 'k" and info :: "nat \<Rightarrow> nat \<Rightarrow> 'i"
    and s :: "('k, 'v, 'w) wstate"
  shows
  "cache_clear (cached_wrapper func cache_ref key lock cond info_opt
       :: ('a, 'k, 'v, 'e, 'w, 'i) wrapper)
     (cache_clear (cached_wrapper func cache_ref key lock cond info_opt
       :: ('a, 'k, 'v, 'e, 'w, 'i) wrapper) s)
     = cache_clear (cached_wrapper func cache_ref key lock cond info_opt
       :: ('a, 'k, 'v, 'e, 'w, 'i) wrapper) s \<and>
   map_option (\<lambda>f. f (cache_clear (cached_wrapper func cache_ref key lock cond (Some info)) s))
     (cache_info (cached_wrapper func cache_ref key lock cond (Some info))) = Some (info 0 0) \<and>
   cached_cond_info_cache_info Pair (cached_cond_info_cache_clear s) = (0, 0) \<and>
   cached_locked_info_cache_info Pair (cached_locked_info_cache_clear s) = (0, 0) \<and>
   cached_unlocked_info_cache_info Pair (cached_unlocked_info_cache_clear s) = (0, 0) \<and>
   uncached_info_cache_info Pair (uncached_info_cache_clear s) = (0, 0) \<and>
   items (cache (cached_cond_info_cache_clear s)) = Map.empty \<and>
   items (cache (cached_locked_info_cache_clear s)) = Map.empty \<and>
   items (cache (cached_unlocked_info_cache_clear s)) = Map.empty \<and>
   items (cache (cached_locked_cache_clear s)) = Map.empty \<and>
   items (cache (cached_unlocked_cache_clear s)) = Map.empty"
  by (simp add: cached_wrapper_def strategy_defs clear_defs info_defs split: option.split)

subsection \<open>A miss whose computation fails\<close>

text \<open>
  C9. In each strategy that keeps statistics, a call whose lookup misses and whose wrapped
  function raises \<open>e\<close> raises \<open>e\<close>, and leaves the state as it was but for the miss
  counter, which is one higher, and the world of the wrapped function: the hit counter
  and the cache are unchanged. (The Condition-Gated call is taken with its key not
  pending, as it otherwise waits.) Uncached with statistics counts the miss before every
  call of the wrapped function.
\<close>

theorem miss_counted_when_func_raises:
  assumes "func a (world s) = (Inl e, w)"
  shows
  "(cache_getitem (cache s) (key a) = None \<longrightarrow>
      cached_locked_info_wrapper func key a s = (Raise e, s\<lparr>misses := misses s + 1, world := w\<rparr>) \<and>
      cached_unlocked_info_wrapper func key a s = (Raise e, s\<lparr>misses := misses s + 1, world := w\<rparr>) \<and>
      (key a \<notin> pending s \<longrightarrow>
         cached_cond_info_wrapper func key a s
           = Some (Raise e, s\<lparr>misses := misses s + 1, world := w\<rparr>))) \<and>
   uncached_info_wrapper func a s = (Raise e, s\<lparr>misses := misses s + 1, world := w\<rparr>)"
  using assms
  by (simp add: cached_locked_info_wrapper_def cached_unlocked_info_wrapper_def
      cached_cond_info_wrapper_def uncached_info_wrapper_def locked_info_lookup_def call_func_def
      cond_defs cache_defs)

theorem miss_counted_when_func_raises_witness:
  "cached_cond_info_wrapper (\<lambda>a w. (Inl (0 :: nat), w)) (\<lambda>a :: nat. a) 7
       (fresh \<lparr>items = Map.empty, rejects = (\<lambda>m k (v :: nat). False)\<rparr> ())
     = Some (Raise 0, \<lparr>cache = \<lparr>items = Map.empty, rejects = (\<lambda>m k v. False)\<rparr>,
                      hits = 0, misses = 1, pending = {}, world = ()\<rparr>) \<and>
   cached_locked_info_wrapper (\<lambda>a w. (Inl (0 :: nat), w)) (\<lambda>a :: nat. a) 7
       (fresh \<lparr>items = Map.empty, rejects = (\<lambda>m k (v :: nat). False)\<rparr> ())
     = (Raise 0, \<lparr>cache = \<lparr>items = Map.empty, rejects = (\<lambda>m k v. False)\<rparr>,
                 hits = 0, misses = 1, pending = {}, world = ()\<rparr>)"
  using miss_counted_when_func_raises [where func = "\<lambda>a w. (Inl (0 :: nat), w)" and a = "7 :: nat"
      and s = "fresh \<lparr>items = Map.empty, rejects = (\<lambda>m k (v :: nat). False)\<rparr> ()" and e = 0
      and w = "()" and key = "\<lambda>a :: nat. a"]
  by (simp add: fresh_def cache_getitem_def)

subsection \<open>The method-bound variants\<close>

lemmas method_defs = cachedmethod_locked_wrapper_def cachedmethod_unlocked_wrapper_def
  call_method_def acquire_def

text \<open>
  C8. When the cache accessor returns \<^verbatim>\<open>None\<close> for the instance, a call of either
  method-bound wrapper is the Uncached call of the method: outcome and world are those of
  \<open>uncached_wrapper\<close>, whatever the key function, and the store of caches and the lock
  counts are unchanged. When the accessor returns the cache \<open>c\<close>, the call is the call of
  the function wrapper (\<open>cached_unlocked_wrapper\<close>, \<open>cached_locked_wrapper\<close>) on
  that cache: same outcome, same new contents of \<open>c\<close>, same world, and no other cache
  of the store changes.
\<close>

theorem cachedmethod_bypass:
  fixes s :: "('c, 'l, 'k, 'v, 'w) mstate" and ws :: "('k, 'v, 'w) wstate"
  shows
  "(cache_of self = None \<and> world ws = mworld s \<longrightarrow>
      cachedmethod_unlocked_wrapper meth cache_of key self a s
        = (fst (uncached_wrapper (meth self) a ws),
           s\<lparr>mworld := world (snd (uncached_wrapper (meth self) a ws))\<rparr>) \<and>
      cachedmethod_locked_wrapper meth cache_of key lock_of self a s
        = (fst (uncached_wrapper (meth self) a ws),
           s\<lparr>mworld := world (snd (uncached_wrapper (meth self) a ws))\<rparr>)) \<and>
   (cache_of self = Some c \<longrightarrow>
      cachedmethod_unlocked_wrapper meth cache_of key self a s
        = (fst (cached_unlocked_wrapper (meth self) (key self) a (instance_view c s)),
           s\<lparr>caches := (caches s)
                (c := cache (snd (cached_unlocked_wrapper (meth self) (key self) a (instance_view c s)))),
             mworld := world (snd (cached_unlocked_wrapper (meth self) (key self) a (instance_view c s)))\<rparr>) \<and>
      fst (cachedmethod_locked_wrapper meth cache_of key lock_of self a s)
        = fst (cached_locked_wrapper (meth self) (key self) a (instance_view c s)) \<and>
      caches (snd (cachedmethod_locked_wrapper meth cache_of key lock_of self a s))
        = (caches s)
            (c := cache (snd (cached_locked_wrapper (meth self) (key self) a (instance_view c s)))) \<and>
      mworld (snd (cachedmethod_locked_wrapper meth cache_of key lock_of self a s))
        = world (snd (cached_locked_wrapper (meth self) (key self) a (instance_view c s))))"
  by (auto simp add: method_defs uncached_wrapper_def cached_unlocked_wrapper_def
      cached_locked_wrapper_def locked_store_def call_func_def instance_view_def fresh_def cache_defs
      Let_def split: prod.split sum.split option.split)

theorem cachedmethod_bypass_witness:
  "cachedmethod_unlocked_wrapper (\<lambda>self a w. (Inr (self + a) :: unit + nat, w))
       (\<lambda>self :: nat. if self = 0 then None else Some ()) (\<lambda>self a :: nat. a) 0 5
       \<lparr>caches = (\<lambda>c. \<lparr>items = Map.empty, rejects = (\<lambda>m k v. False)\<rparr>),
        acquired = (\<lambda>l :: unit. 0), mworld = ()\<rparr>
     = (Return 5, \<lparr>caches = (\<lambda>c. \<lparr>items = Map.empty, rejects = (\<lambda>m k v. False)\<rparr>),
                   acquired = (\<lambda>l. 0), mworld = ()\<rparr>) \<and>
   cachedmethod_unlocked_wrapper (\<lambda>self a w. (Inr (self + a) :: unit + nat, w))
       (\<lambda>self :: nat. if self = 0 then None else Some ()) (\<lambda>self a :: nat. a) 1 5
       \<lparr>caches = (\<lambda>c. \<lparr>items = Map.empty, rejects = (\<lambda>m k v. False)\<rparr>),
        acquired = (\<lambda>l :: unit. 0), mworld = ()\<rparr>
     = (Return 6, \<lparr>caches = (\<lambda>c. \<lparr>items = [5 \<mapsto> 6], rejects = (\<lambda>m k v. False)\<rparr>),
                   acquired = (\<lambda>l. 0), mworld = ()\<rparr>)"
  using cachedmethod_bypass [where meth = "\<lambda>self a w. (Inr (self + a) :: unit + nat, w)"
      and cache_of = "\<lambda>self :: nat. if self = 0 then None else Some ()"
      and key = "\<lambda>self a :: nat. a" and self = 0 and a = 5
      and s = "\<lparr>caches = (\<lambda>c. \<lparr>items = Map.empty, rejects = (\<lambda>m k v. False)\<rparr>),
                acquired = (\<lambda>l :: unit. 0), mworld = ()\<rparr>"
      and ws = "fresh \<lparr>items = Map.empty, rejects = (\<lambda>m (k :: nat) (v :: nat). False)\<rparr> ()"
      and lock_of = "\<lambda>self. ()" and c = "()"]
    cachedmethod_bypass [where meth = "\<lambda>self a w. (Inr (self + a) :: unit + nat, w)"
      and cache_of = "\<lambda>self :: nat. if self = 0 then None else Some ()"
      and key = "\<lambda>self a :: nat. a" and self = 1 and a = 5
      and s = "\<lparr>caches = (\<lambda>c. \<lparr>items = Map.empty, rejects = (\<lambda>m k v. False)\<rparr>),
                acquired = (\<lambda>l :: unit. 0), mworld = ()\<rparr>"
      and ws = "fresh \<lparr>items = Map.empty, rejects = (\<lambda>m (k :: nat) (v :: nat). False)\<rparr> ()"
      and lock_of = "\<lambda>self. ()" and c = "()"]
  by (simp add: uncached_wrapper_def cached_unlocked_wrapper_def call_func_def instance_view_def
      fresh_def cache_defs fun_eq_iff)

text \<open>
  C10. \<^verbatim>\<open>cache_clear(self)\<close> of the method-bound variants changes nothing when the cache
  accessor returns \<^verbatim>\<open>None\<close> for the instance: no cache is touched and, in the locked
  variant, no lock is acquired. Otherwise it empties the cache the accessor returns and
  no other, and the locked variant acquires the lock of the instance once.
\<close>

theorem cachedmethod_cache_clear_sentinel:
  fixes s :: "('c, 'l, 'k, 'v, 'w) mstate"
  shows
  "(cache_of self = None \<longrightarrow>
      cachedmethod_locked_cache_clear cache_of lock_of self s = s \<and>
      cachedmethod_unlocked_cache_clear cache_of self s = s) \<and>
   (cache_of self = Some c \<longrightarrow>
      cachedmethod_locked_cache_clear cache_of lock_of self s
        = s\<lparr>caches := (caches s)(c := (caches s c)\<lparr>items := Map.empty\<rparr>),
            acquired := (acquired s)(lock_of self := acquired s (lock_of self) + 1)\<rparr> \<and>
      cachedmethod_unlocked_cache_clear cache_of self s
        = s\<lparr>caches := (caches s)(c := (caches s c)\<lparr>items := Map.empty\<rparr>)\<rparr>)"
  by (simp add: cachedmethod_locked_cache_clear_def cachedmethod_unlocked_cache_clear_def
      acquire_def cache_clear_all_def)


theorem cachedmethod_cache_clear_sentinel_witness:
  "cachedmethod_locked_cache_clear (\<lambda>self :: nat. if self = 0 then None else Some ()) (\<lambda>self. ()) 0
       \<lparr>caches = (\<lambda>c. \<lparr>items = [5 \<mapsto> 6 :: nat], rejects = (\<lambda>m (k :: nat) v. False)\<rparr>),
        acquired = (\<lambda>l. 0), mworld = ()\<rparr>
     = \<lparr>caches = (\<lambda>c. \<lparr>items = [5 \<mapsto> 6], rejects = (\<lambda>m k v. False)\<rparr>),
        acquired = (\<lambda>l. 0), mworld = ()\<rparr> \<and>
   cachedmethod_locked_cache_clear (\<lambda>self :: nat. if self = 0 then None else Some ()) (\<lambda>self. ()) 1
       \<lparr>caches = (\<lambda>c. \<lparr>items = [5 \<mapsto> 6 :: nat], rejects = (\<lambda>m (k :: nat) v. False)\<rparr>),
        acquired = (\<lambda>l. 0), mworld = ()\<rparr>
     = \<lparr>caches = (\<lambda>c. \<lparr>items = Map.empty, rejects = (\<lambda>m k v. False)\<rparr>),
        acquired = (\<lambda>l. 1), mworld = ()\<rparr>"
  using cachedmethod_cache_clear_sentinel [where cache_of = "\<lambda>self :: nat. if self = 0 then None else Some ()"
      and lock_of = "\<lambda>self. ()" and self = 0 and c = "()"
      and s = "\<lparr>caches = (\<lambda>c. \<lparr>items = [5 \<mapsto> 6 :: nat], rejects = (\<lambda>m (k :: nat) v. False)\<rparr>),
                acquired = (\<lambda>l. 0), mworld = ()\<rparr>"]
    cachedmethod_cache_clear_sentinel [where cache_of = "\<lambda>self :: nat. if self = 0 then None else Some ()"
      and lock_of = "\<lambda>self. ()" and self = 1 and c = "()"
      and s = "\<lparr>caches = (\<lambda>c. \<lparr>items = [5 \<mapsto> 6 :: nat], rejects = (\<lambda>m (k :: nat) v. False)\<rparr>),
                acquired = (\<lambda>l. 0), mworld = ()\<rparr>"]
  by (simp add: fun_eq_iff)

subsection \<open>A cache that rejects insertions\<close>

lemmas wrapper_defs = cached_locked_info_wrapper_def cached_unlocked_info_wrapper_def
  cached_cond_info_wrapper_def uncached_info_wrapper_def cached_locked_wrapper_def
  cached_unlocked_wrapper_def uncached_wrapper_def locked_info_lookup_def locked_store_def
  call_func_def

lemma rejecting_call:
  assumes "\<forall>m k v. rejects (cache s) m k v" "items (cache s) = Map.empty" "pending s = {}"
    and "W \<in> stats_strategies func key info"
    and "func a (world s) = (r, w')"
  shows "call W a s = Some ((case r of Inl e \<Rightarrow> Raise e | Inr v \<Rightarrow> Return v),
            s\<lparr>misses := misses s + 1, world := w'\<rparr>)"
  using assms
  by (auto simp add: stats_strategies_def strategy_defs wrapper_defs cond_defs cache_defs
      split: sum.split)

lemma rejecting_call_seq:
  assumes "\<forall>m k v. rejects (cache s) m k v" "items (cache s) = Map.empty" "pending s = {}"
    and "W \<in> stats_strategies func key info"
  shows "call_seq (call W) args s
     = Some (fst (func_seq func args (world s)),
             s\<lparr>misses := misses s + length args, world := snd (func_seq func args (world s))\<rparr>)"
  using assms
proof (induction args arbitrary: s)
  case Nil
  then show ?case by simp
next
  case (Cons a args)
  obtain r w' where f: "func a (world s) = (r, w')" by (cases "func a (world s)")
  let ?s1 = "s\<lparr>misses := misses s + 1, world := w'\<rparr>"
  have c: "call W a s = Some ((case r of Inl e \<Rightarrow> Raise e | Inr v \<Rightarrow> Return v), ?s1)"
    using rejecting_call [OF Cons.prems f] .
  have "call_seq (call W) args ?s1
     = Some (fst (func_seq func args (world ?s1)),
             ?s1\<lparr>misses := misses ?s1 + length args, world := snd (func_seq func args (world ?s1))\<rparr>)"
    using Cons.prems by (intro Cons.IH) simp_all
  then show ?case using c f by (simp split: prod.split)
qed


lemma rejecting_call_plain:
  assumes "\<forall>m k v. rejects (cache s) m k v" "items (cache s) = Map.empty"
    and "W \<in> plain_strategies func key"
    and "func a (world s) = (r, w')"
  shows "call W a s = Some ((case r of Inl e \<Rightarrow> Raise e | Inr v \<Rightarrow> Return v), s\<lparr>world := w'\<rparr>)"
  using assms
  by (auto simp add: plain_strategies_def strategy_defs wrapper_defs cache_defs split: sum.split)

lemma rejecting_call_seq_plain:
  assumes "\<forall>m k v. rejects (cache s) m k v" "items (cache s) = Map.empty"
    and "W \<in> plain_strategies func key"
  shows "call_seq (call W) args s
     = Some (fst (func_seq func args (world s)), s\<lparr>world := snd (func_seq func args (world s))\<rparr>)"
  using assms
proof (induction args arbitrary: s)
  case Nil
  then show ?case by simp
next
  case (Cons a args)
  obtain r w' where f: "func a (world s) = (r, w')" by (cases "func a (world s)")
  let ?s1 = "s\<lparr>world := w'\<rparr>"
  have c: "call W a s = Some ((case r of Inl e \<Rightarrow> Raise e | Inr v \<Rightarrow> Return v), ?s1)"
    using rejecting_call_plain [OF Cons.prems f] .
  have "call_seq (call W) args ?s1
     = Some (fst (func_seq func args (world ?s1)),
             ?s1\<lparr>world := snd (func_seq func args (world ?s1))\<rparr>)"
    using Cons.prems by (intro Cons.IH) simp_all
  then show ?case using c f by (simp split: prod.split)
qed

lemma rejected_single_call:
  assumes "cache_getitem (cache s) (key a) = None" "func a (world s) = (Inr v, w)"
    and "rejects (cache s) (items (cache s)) (key a) v"
  shows "cached_unlocked_info_wrapper func key a s = (Return v, s\<lparr>misses := misses s + 1, world := w\<rparr>)"
    and "cached_locked_info_wrapper func key a s = (Return v, s\<lparr>misses := misses s + 1, world := w\<rparr>)"
    and "key a \<notin> pending s \<Longrightarrow>
         cached_cond_info_wrapper func key a s = Some (Return v, s\<lparr>misses := misses s + 1, world := w\<rparr>)"
    and "cached_unlocked_wrapper func key a s = (Return v, s\<lparr>world := w\<rparr>)"
    and "cached_locked_wrapper func key a s = (Return v, s\<lparr>world := w\<rparr>)"
  using assms by (simp_all add: wrapper_defs cond_defs cache_defs)

lemma rejected_method_call:
  assumes "cache_of self = Some c" "cache_getitem (caches s c) (key self a) = None"
    and "meth self a (mworld s) = (Inr v, w)"
    and "rejects (caches s c) (items (caches s c)) (key self a) v"
  shows "cachedmethod_unlocked_wrapper meth cache_of key self a s = (Return v, s\<lparr>mworld := w\<rparr>)"
    and "fst (cachedmethod_locked_wrapper meth cache_of key lock_of self a s) = Return v"
    and "caches (snd (cachedmethod_locked_wrapper meth cache_of key lock_of self a s)) = caches s"
  using assms by (simp_all add: method_defs cache_defs Let_def)

text \<open>
  C4. In every strategy with a cache, function wrapper or method-bound, a call that misses,
  computes \<open>v\<close> and has its insertion rejected returns \<open>v\<close>: no error, the cache
  unchanged. With a cache that rejects every insertion (and so is empty), any sequence
  of calls, from any values of the counters, has the outcomes of the same calls made to
  the wrapped function itself; every call adds one to the miss counter and none changes
  the hit counter.
\<close>

theorem capacity_rejection_never_surfaces:
  fixes s :: "('k, 'v, 'w) wstate" and ms :: "('c, 'l, 'k, 'v, 'w) mstate"
    and info :: "nat \<Rightarrow> nat \<Rightarrow> 'i"
  shows
  "(cache_getitem (cache s) (key a) = None \<and> func a (world s) = (Inr v, w) \<and>
    rejects (cache s) (items (cache s)) (key a) v \<longrightarrow>
      cached_unlocked_info_wrapper func key a s = (Return v, s\<lparr>misses := misses s + 1, world := w\<rparr>) \<and>
      cached_locked_info_wrapper func key a s = (Return v, s\<lparr>misses := misses s + 1, world := w\<rparr>) \<and>
      (key a \<notin> pending s \<longrightarrow>
         cached_cond_info_wrapper func key a s
           = Some (Return v, s\<lparr>misses := misses s + 1, world := w\<rparr>)) \<and>
      cached_unlocked_wrapper func key a s = (Return v, s\<lparr>world := w\<rparr>) \<and>
      cached_locked_wrapper func key a s = (Return v, s\<lparr>world := w\<rparr>)) \<and>
   (cache_of self = Some c \<and> cache_getitem (caches ms c) (mkey self a) = None \<and>
    meth self a (mworld ms) = (Inr v, w) \<and>
    rejects (caches ms c) (items (caches ms c)) (mkey self a) v \<longrightarrow>
      cachedmethod_unlocked_wrapper meth cache_of mkey self a ms = (Return v, ms\<lparr>mworld := w\<rparr>) \<and>
      fst (cachedmethod_locked_wrapper meth cache_of mkey lock_of self a ms) = Return v \<and>
      caches (snd (cachedmethod_locked_wrapper meth cache_of mkey lock_of self a ms)) = caches ms) \<and>
   ((\<forall>m k v. rejects (cache s) m k v) \<and> items (cache s) = Map.empty \<and> pending s = {} \<longrightarrow>
      (\<forall>W \<in> stats_strategies func key info.
         call_seq (call W) args s
           = Some (fst (func_seq func args (world s)),
                   s\<lparr>misses := misses s + length args,
                     world := snd (func_seq func args (world s))\<rparr>)) \<and>
      (\<forall>W \<in> (plain_strategies func key :: ('a, 'k, 'v, 'e, 'w, 'i) wrapper set).
         call_seq (call W) args s
           = Some (fst (func_seq func args (world s)),
                   s\<lparr>world := snd (func_seq func args (world s))\<rparr>)))"
proof (intro conjI impI ballI)
  fix W :: "('a, 'k, 'v, 'e, 'w, 'i) wrapper"
  assume r: "(\<forall>m k v. rejects (cache s) m k v) \<and> items (cache s) = Map.empty \<and> pending s = {}"
    and W: "W \<in> stats_strategies func key info"
  show "call_seq (call W) args s
           = Some (fst (func_seq func args (world s)),
                   s\<lparr>misses := misses s + length args,
                     world := snd (func_seq func args (world s))\<rparr>)"
    using r W by (intro rejecting_call_seq) simp_all
next
  fix W :: "('a, 'k, 'v, 'e, 'w, 'i) wrapper"
  assume r: "(\<forall>m k v. rejects (cache s) m k v) \<and> items (cache s) = Map.empty \<and> pending s = {}"
    and W: "W \<in> plain_strategies func key"
  show "call_seq (call W) args s
           = Some (fst (func_seq func args (world s)),
                   s\<lparr>world := snd (func_seq func args (world s))\<rparr>)"
    using r W by (intro rejecting_call_seq_plain) simp_all
qed (simp_all add: rejected_single_call rejected_method_call)


theorem capacity_rejection_never_surfaces_witness:
  "call_seq (call (cached_locked_info (\<lambda>a w. (Inr (a + 1) :: unit + nat, w)) (\<lambda>a :: nat. a)
         \<lparr>has_wait_for = False, has_notify_all = False\<rparr> Pair))
       [3, 3] (fresh \<lparr>items = Map.empty, rejects = (\<lambda>m k v. True)\<rparr> ())
     = Some ([Return 4, Return 4],
             \<lparr>cache = \<lparr>items = Map.empty, rejects = (\<lambda>m k v. True)\<rparr>,
              hits = 0, misses = 2, pending = {}, world = ()\<rparr>) \<and>
   cached_cond_info_wrapper (\<lambda>a w. (Inr (a + 1) :: unit + nat, w)) (\<lambda>a :: nat. a) 3
       (fresh \<lparr>items = Map.empty, rejects = (\<lambda>m k v. True)\<rparr> ())
     = Some (Return 4,
             \<lparr>cache = \<lparr>items = Map.empty, rejects = (\<lambda>m k v. True)\<rparr>,
              hits = 0, misses = 1, pending = {}, world = ()\<rparr>)"
  using capacity_rejection_never_surfaces [where func = "\<lambda>a w. (Inr (a + 1) :: unit + nat, w)"
      and key = "\<lambda>a :: nat. a" and info = "Pair :: nat \<Rightarrow> nat \<Rightarrow> nat \<times> nat" and args = "[3, 3]" and a = 3
      and v = 4 and w = "()"
      and s = "fresh \<lparr>items = Map.empty, rejects = (\<lambda>m (k :: nat) (v :: nat). True)\<rparr> ()"
      and cache_of = "\<lambda>self :: unit. None :: unit option" and self = "()" and c = "()"
      and ms = "\<lparr>caches = (\<lambda>c. \<lparr>items = Map.empty, rejects = (\<lambda>m k v. True)\<rparr>),
                 acquired = (\<lambda>l :: unit. 0), mworld = ()\<rparr>"]
  by (simp add: stats_strategies_def fresh_def cache_getitem_def)

subsection \<open>Counting hits and misses\<close>

lemma accepting_call:
  assumes "\<forall>a w. \<exists>v w'. func a w = (Inr v, w')"
    and "\<forall>m k v. \<not> rejects (cache s) m k v" "pending s = {}"
    and "W \<in> stats_strategies func key info"
  shows "\<exists>out s1. call W a s = Some (out, s1) \<and> pending s1 = {} \<and>
           rejects (cache s1) = rejects (cache s) \<and>
           dom (items (cache s1)) = insert (key a) (dom (items (cache s))) \<and>
           (if key a \<in> dom (items (cache s))
            then hits s1 = hits s + 1 \<and> misses s1 = misses s
            else hits s1 = hits s \<and> misses s1 = misses s + 1)"
proof -
  obtain v w' where f: "func a (world s) = (Inr v, w')" using assms(1) by blast
  have W: "W = cached_unlocked_info func key info \<or> (\<exists>l. W = cached_locked_info func key l info)
      \<or> (\<exists>l. W = cached_cond_info func key l info)"
    using assms(4) by (auto simp add: stats_strategies_def)
  show ?thesis
  proof (cases "items (cache s) (key a)")
    case None
    then have nd: "key a \<notin> dom (items (cache s))" by (simp add: domIff)
    from W show ?thesis
      using None nd assms(2,3) f
      by (elim disjE exE) (simp_all add: strategy_defs wrapper_defs cond_defs cache_defs)
  next
    case (Some r)
    then have d: "key a \<in> dom (items (cache s))" by (simp add: domIff)
    then have i: "insert (key a) (dom (items (cache s))) = dom (items (cache s))" by auto
    from W show ?thesis
      using Some d i assms(2,3)
      by (elim disjE exE) (simp_all add: strategy_defs wrapper_defs cond_defs cache_defs)
  qed
qed

lemma card_new_key:
  assumes "k \<notin> D" "finite A"
  shows "card (insert k A - D) = Suc (card (A - insert k D))"
proof -
  have "insert k A - D = insert k (A - insert k D)" using assms(1) by auto
  moreover have "k \<notin> A - insert k D" by simp
  moreover have "finite (A - insert k D)" using assms(2) by simp
  ultimately show ?thesis by (simp del: Diff_insert Diff_insert2 Diff_insert0 insert_Diff_if)
qed

lemma accepting_call_seq:
  assumes "\<forall>a w. \<exists>v w'. func a w = (Inr v, w')"
    and "\<forall>m k v. \<not> rejects (cache s) m k v" "pending s = {}"
    and "W \<in> stats_strategies func key info"
  shows "\<exists>outs s'. call_seq (call W) args s = Some (outs, s') \<and>
           misses s' = misses s + card (key ` set args - dom (items (cache s))) \<and>
           hits s' + misses s' = hits s + misses s + length args"
  using assms(2,3)
proof (induction args arbitrary: s)
  case Nil
  then show ?case by simp
next
  case (Cons a args)
  obtain out s1 where c: "call W a s = Some (out, s1)" and p: "pending s1 = {}"
    and r: "rejects (cache s1) = rejects (cache s)"
    and d: "dom (items (cache s1)) = insert (key a) (dom (items (cache s)))"
    and n: "if key a \<in> dom (items (cache s))
            then hits s1 = hits s + 1 \<and> misses s1 = misses s
            else hits s1 = hits s \<and> misses s1 = misses s + 1"
    using accepting_call [OF assms(1) Cons.prems assms(4), of a] by blast
  have "\<forall>m k v. \<not> rejects (cache s1) m k v" using r Cons.prems(1) by simp
  from Cons.IH [OF this p]
  obtain outs s' where cs: "call_seq (call W) args s1 = Some (outs, s')"
    and m: "misses s' = misses s1 + card (key ` set args - dom (items (cache s1)))"
    and h: "hits s' + misses s' = hits s1 + misses s1 + length args"
    by blast
  have seq: "call_seq (call W) (a # args) s = Some (out # outs, s')"
    using c cs by simp
  show ?case
  proof (cases "key a \<in> dom (items (cache s))")
    case True
    then have "insert (key a) (dom (items (cache s))) = dom (items (cache s))" by auto
    moreover have "key ` set (a # args) - dom (items (cache s))
        = key ` set args - dom (items (cache s))" using True by auto
    ultimately show ?thesis using seq m h n d True by simp
  next
    case False
    have "card (insert (key a) (key ` set args) - dom (items (cache s)))
        = Suc (card (key ` set args - insert (key a) (dom (items (cache s)))))"
      using False by (intro card_new_key) simp_all
    then show ?thesis using seq m h n d False by simp
  qed
qed


text \<open>
  C5, amended. Let the wrapped function return normally at every call, let the cache
  accept every insertion, and let a fresh wrapper (counters zero, nothing pending) start
  with a cache that holds none of the derived keys. Then after \<open>N\<close> calls by a single
  caller, with no \<^verbatim>\<open>cache_clear\<close> in between, whose keys take \<open>K\<close> distinct values,
  each strategy with a cache and statistics reports \<open>K\<close> misses and \<open>N - K\<close> hits.
\<close>

theorem hit_miss_accounting:
  fixes info :: "nat \<Rightarrow> nat \<Rightarrow> 'i" and W :: "('a, 'k, 'v, 'e, 'w, 'i) wrapper"
  assumes "\<forall>a w. \<exists>v w'. func a w = (Inr v, w')"
    and "\<forall>m k v. \<not> rejects c m k v"
    and "\<forall>a \<in> set args. items c (key a) = None"
    and "W \<in> stats_strategies func key info"
  shows "\<exists>outs s'. call_seq (call W) args (fresh c w) = Some (outs, s') \<and>
           misses s' = card (key ` set args) \<and>
           hits s' = length args - card (key ` set args) \<and>
           map_option (\<lambda>f. f s') (cache_info W)
             = Some (info (length args - card (key ` set args)) (card (key ` set args)))"
proof -
  have "\<forall>m k v. \<not> rejects (cache (fresh c w)) m k v" and "pending (fresh c w) = {}"
    using assms(2) by (simp_all add: fresh_def)
  from accepting_call_seq [OF assms(1) this assms(4), of args]
  obtain outs s' where cs: "call_seq (call W) args (fresh c w) = Some (outs, s')"
    and m: "misses s' = misses (fresh c w) + card (key ` set args - dom (items (cache (fresh c w))))"
    and h: "hits s' + misses s' = hits (fresh c w) + misses (fresh c w) + length args"
    by blast
  have "key ` set args - dom (items c) = key ` set args"
    using assms(3) by (auto simp add: domIff)
  then have m': "misses s' = card (key ` set args)" using m by (simp add: fresh_def)
  have h': "hits s' = length args - card (key ` set args)" using h m' by (simp add: fresh_def)
  have "map_option (\<lambda>f. f s') (cache_info W) = Some (info (hits s') (misses s'))"
    using assms(4) by (auto simp add: stats_strategies_def strategy_defs info_defs)
  then show ?thesis using cs m' h' by simp
qed

theorem hit_miss_accounting_witness:
  "\<exists>outs s'. call_seq (call (cached_locked_info (\<lambda>a w. (Inr (a + a) :: unit + nat, w)) (\<lambda>a :: nat. a)
         \<lparr>has_wait_for = False, has_notify_all = False\<rparr> Pair))
         [5, 6, 7, 5] (fresh \<lparr>items = Map.empty, rejects = (\<lambda>m k v. False)\<rparr> ()) = Some (outs, s') \<and>
       misses s' = 3 \<and> hits s' = 1 \<and> cached_locked_info_cache_info Pair s' = (1, 3)"
proof -
  have k: "card ((\<lambda>a :: nat. a) ` set [5, 6, 7, 5]) = 3" by (simp add: card_insert_if)
  show ?thesis
    using hit_miss_accounting [where func = "\<lambda>a w. (Inr (a + a) :: unit + nat, w)"
        and key = "\<lambda>a :: nat. a" and info = "Pair :: nat \<Rightarrow> nat \<Rightarrow> nat \<times> nat"
        and W = "cached_locked_info (\<lambda>a w. (Inr (a + a) :: unit + nat, w)) (\<lambda>a :: nat. a)
          \<lparr>has_wait_for = False, has_notify_all = False\<rparr> Pair"
        and args = "[5, 6, 7, 5]" and c = "\<lparr>items = Map.empty, rejects = (\<lambda>m k v. False)\<rparr>"
        and w = "()"]
    unfolding k
    by (simp add: stats_strategies_def cached_locked_info_def)
qed

text \<open>
  C5 as stated has no condition on the wrapped function. A function that raises stores
  nothing, so the second of two calls with the same key misses again: \<open>N = 2\<close>,
  \<open>K = 1\<close>, and the counters are 0 hits and 2 misses.
\<close>

theorem hit_miss_accounting_counterexample:
  "call_seq (call (cached_locked_info (\<lambda>a w. (Inl () :: unit + nat, w)) (\<lambda>a :: nat. a)
         \<lparr>has_wait_for = False, has_notify_all = False\<rparr> Pair))
       [0, 0] (fresh \<lparr>items = Map.empty, rejects = (\<lambda>m k v. False)\<rparr> ())
     = Some ([Raise (), Raise ()],
             \<lparr>cache = \<lparr>items = Map.empty, rejects = (\<lambda>m k v. False)\<rparr>,
              hits = 0, misses = 2, pending = {}, world = ()\<rparr>) \<and>
   card ((\<lambda>a :: nat. a) ` set [0, 0]) = 1 \<and> length [0 :: nat, 0] = 2"
  by (simp add: cached_locked_info_def wrapper_defs cache_defs fresh_def)

subsection \<open>The pending set of the Condition-Gated strategy\<close>

text \<open>
  The invariant \<open>cond_inv\<close>: the pending set is exactly the set of keys held by callers
  between their miss and their cleanup, no key is held twice, a waiting caller waits for
  a pending key, and the key of a caller that has not stored yet is not in the cache. It
  holds initially and every action keeps it.
\<close>

lemma held_key_notify_all [simp]: "held_key (notify_all ths u) = held_key (ths u)"
  by (cases "ths u") (simp_all add: notify_all_def)

lemma unstored_key_notify_all [simp]: "unstored_key (notify_all ths u) = unstored_key (ths u)"
  by (cases "ths u") (simp_all add: notify_all_def)

lemma waiting_key_notify_all [simp]: "waiting_key (notify_all ths u) = None"
  by (cases "ths u") (simp_all add: notify_all_def)

lemma unstored_held: "unstored_key th = Some k \<Longrightarrow> held_key th = Some k"
  by (cases th) simp_all

lemma cond_inv_init: "cond_inv (cond_info_init c w)"
  by (simp add: cond_inv_def cond_info_init_def fresh_def)

text \<open>A transition of caller t that neither takes nor gives back a key.\<close>

lemma cond_inv_neutral:
  assumes inv: "cond_inv sys"
    and h: "held_key new = held_key (cthreads sys t)"
    and u: "\<And>k. unstored_key new = Some k \<Longrightarrow> unstored_key (cthreads sys t) = Some k"
    and w: "\<And>k. waiting_key new = Some k \<Longrightarrow> k \<in> pending (cshared sys)"
    and p: "pending sh = pending (cshared sys)"
    and c: "\<And>k ta. unstored_key (((cthreads sys)(t := new)) ta) = Some k
               \<Longrightarrow> cache_getitem (cache (cshared sys)) k = None
               \<Longrightarrow> cache_getitem (cache sh) k = None"
  shows "cond_inv \<lparr>cshared = sh, cthreads = (cthreads sys)(t := new)\<rparr>"
  unfolding cond_inv_def
proof (intro conjI allI impI ballI)
  fix ta k assume "held_key (cthreads \<lparr>cshared = sh, cthreads = (cthreads sys)(t := new)\<rparr> ta) = Some k"
  then show "k \<in> pending (cshared \<lparr>cshared = sh, cthreads = (cthreads sys)(t := new)\<rparr>)"
    using inv h p unfolding cond_inv_def by (cases "ta = t") auto
next
  fix ta ua k
  assume "held_key (cthreads \<lparr>cshared = sh, cthreads = (cthreads sys)(t := new)\<rparr> ta) = Some k \<and>
       held_key (cthreads \<lparr>cshared = sh, cthreads = (cthreads sys)(t := new)\<rparr> ua) = Some k"
  then have "held_key (cthreads sys ta) = Some k \<and> held_key (cthreads sys ua) = Some k"
    using h by (auto split: if_splits)
  then show "ta = ua" using inv unfolding cond_inv_def by blast
next
  fix k assume "k \<in> pending (cshared \<lparr>cshared = sh, cthreads = (cthreads sys)(t := new)\<rparr>)"
  then obtain ta where "held_key (cthreads sys ta) = Some k"
    using inv p unfolding cond_inv_def by auto
  then have "held_key (cthreads \<lparr>cshared = sh, cthreads = (cthreads sys)(t := new)\<rparr> ta) = Some k"
    using h by auto
  then show "\<exists>ta. held_key (cthreads \<lparr>cshared = sh, cthreads = (cthreads sys)(t := new)\<rparr> ta) = Some k"
    by blast
next
  fix ta k assume "waiting_key (cthreads \<lparr>cshared = sh, cthreads = (cthreads sys)(t := new)\<rparr> ta) = Some k"
  then show "k \<in> pending (cshared \<lparr>cshared = sh, cthreads = (cthreads sys)(t := new)\<rparr>)"
    using inv w p unfolding cond_inv_def by (cases "ta = t") auto
next
  fix ta k assume a: "unstored_key (cthreads \<lparr>cshared = sh, cthreads = (cthreads sys)(t := new)\<rparr> ta) = Some k"
  then have "unstored_key (cthreads sys ta) = Some k"
    using u by (cases "ta = t") auto
  then have "cache_getitem (cache (cshared sys)) k = None"
    using inv unfolding cond_inv_def by blast
  then show "cache_getitem (cache (cshared \<lparr>cshared = sh, cthreads = (cthreads sys)(t := new)\<rparr>)) k = None"
    using c a by simp
qed

text \<open>The miss: caller t takes the key k.\<close>

lemma cond_inv_take:
  assumes inv: "cond_inv sys"
    and h: "held_key (cthreads sys t) = None"
    and n: "k \<notin> pending (cshared sys)"
    and m: "cache_getitem (cache (cshared sys)) k = None"
    and p: "pending sh = insert k (pending (cshared sys))"
    and c: "cache sh = cache (cshared sys)"
  shows "cond_inv \<lparr>cshared = sh, cthreads = (cthreads sys)(t := CCompute a k)\<rparr>"
  unfolding cond_inv_def
proof (intro conjI allI impI ballI)
  fix ta k' assume "held_key (cthreads \<lparr>cshared = sh, cthreads = (cthreads sys)(t := CCompute a k)\<rparr> ta) = Some k'"
  then show "k' \<in> pending (cshared \<lparr>cshared = sh, cthreads = (cthreads sys)(t := CCompute a k)\<rparr>)"
    using inv p unfolding cond_inv_def by (cases "ta = t") auto
next
  fix ta ua k'
  assume a: "held_key (cthreads \<lparr>cshared = sh, cthreads = (cthreads sys)(t := CCompute a k)\<rparr> ta) = Some k' \<and>
       held_key (cthreads \<lparr>cshared = sh, cthreads = (cthreads sys)(t := CCompute a k)\<rparr> ua) = Some k'"
  have other: "\<And>x. x \<noteq> t \<Longrightarrow> held_key (cthreads sys x) \<noteq> Some k"
    using inv n unfolding cond_inv_def by blast
  show "ta = ua"
  proof (cases "ta = t")
    case True
    then have "k' = k" using a by simp
    then show ?thesis using a True other [of ua] by (cases "ua = t") auto
  next
    case False
    then have ta: "held_key (cthreads sys ta) = Some k'" using a by simp
    then have "k' \<noteq> k" using other [OF False] by auto
    then have "ua \<noteq> t" using a by auto
    then have "held_key (cthreads sys ua) = Some k'" using a by simp
    then show ?thesis using ta inv unfolding cond_inv_def by blast
  qed
next
  fix k' assume a: "k' \<in> pending (cshared \<lparr>cshared = sh, cthreads = (cthreads sys)(t := CCompute a k)\<rparr>)"
  show "\<exists>ta. held_key (cthreads \<lparr>cshared = sh, cthreads = (cthreads sys)(t := CCompute a k)\<rparr> ta) = Some k'"
  proof (cases "k' = k")
    case True
    then have "held_key (cthreads \<lparr>cshared = sh, cthreads = (cthreads sys)(t := CCompute a k)\<rparr> t) = Some k'"
      by simp
    then show ?thesis by blast
  next
    case False
    then have "k' \<in> pending (cshared sys)" using a p by simp
    then obtain ta where ta: "held_key (cthreads sys ta) = Some k'"
      using inv unfolding cond_inv_def by blast
    then have "ta \<noteq> t" using h by auto
    then have "held_key (cthreads \<lparr>cshared = sh, cthreads = (cthreads sys)(t := CCompute a k)\<rparr> ta) = Some k'"
      using ta by simp
    then show ?thesis by blast
  qed
next
  fix ta k' assume "waiting_key (cthreads \<lparr>cshared = sh, cthreads = (cthreads sys)(t := CCompute a k)\<rparr> ta) = Some k'"
  then show "k' \<in> pending (cshared \<lparr>cshared = sh, cthreads = (cthreads sys)(t := CCompute a k)\<rparr>)"
    using inv p unfolding cond_inv_def by (cases "ta = t") auto
next
  fix ta k' assume "unstored_key (cthreads \<lparr>cshared = sh, cthreads = (cthreads sys)(t := CCompute a k)\<rparr> ta) = Some k'"
  then show "cache_getitem (cache (cshared \<lparr>cshared = sh, cthreads = (cthreads sys)(t := CCompute a k)\<rparr>)) k' = None"
    using inv m c unfolding cond_inv_def by (cases "ta = t") auto
qed

text \<open>The cleanup: caller t gives the key k back and wakes every waiter.\<close>

lemma cond_inv_give:
  assumes inv: "cond_inv sys"
    and h: "cthreads sys t = CFinally k out"
    and p: "pending sh = pending (cshared sys) - {k}"
    and c: "cache sh = cache (cshared sys)"
  shows "cond_inv \<lparr>cshared = sh, cthreads = notify_all ((cthreads sys)(t := CDone out'))\<rparr>"
  unfolding cond_inv_def
proof (intro conjI allI impI ballI)
  have excl: "\<And>x. held_key (cthreads sys x) = Some k \<Longrightarrow> x = t"
    using inv h unfolding cond_inv_def by (metis held_key.simps(3))
  {
    fix ta k' assume a: "held_key (cthreads \<lparr>cshared = sh, cthreads = notify_all ((cthreads sys)(t := CDone out'))\<rparr> ta) = Some k'"
    then have "ta \<noteq> t" by auto
    then have ta: "held_key (cthreads sys ta) = Some k'" using a by simp
    then have "k' \<noteq> k" using excl \<open>ta \<noteq> t\<close> by auto
    moreover have "k' \<in> pending (cshared sys)" using ta inv unfolding cond_inv_def by blast
    ultimately show "k' \<in> pending (cshared \<lparr>cshared = sh, cthreads = notify_all ((cthreads sys)(t := CDone out'))\<rparr>)"
      using p by simp
  }
  {
    fix ta ua k'
    assume "held_key (cthreads \<lparr>cshared = sh, cthreads = notify_all ((cthreads sys)(t := CDone out'))\<rparr> ta) = Some k' \<and>
       held_key (cthreads \<lparr>cshared = sh, cthreads = notify_all ((cthreads sys)(t := CDone out'))\<rparr> ua) = Some k'"
    then have "held_key (cthreads sys ta) = Some k' \<and> held_key (cthreads sys ua) = Some k'"
      by (auto split: if_splits)
    then show "ta = ua" using inv unfolding cond_inv_def by blast
  }
  {
    fix k' assume "k' \<in> pending (cshared \<lparr>cshared = sh, cthreads = notify_all ((cthreads sys)(t := CDone out'))\<rparr>)"
    then have k': "k' \<in> pending (cshared sys)" "k' \<noteq> k" using p by auto
    then obtain ta where ta: "held_key (cthreads sys ta) = Some k'"
      using inv unfolding cond_inv_def by blast
    then have "ta \<noteq> t" using h k' by auto
    then have "held_key (cthreads \<lparr>cshared = sh, cthreads = notify_all ((cthreads sys)(t := CDone out'))\<rparr> ta) = Some k'"
      using ta by simp
    then show "\<exists>ta. held_key (cthreads \<lparr>cshared = sh, cthreads = notify_all ((cthreads sys)(t := CDone out'))\<rparr> ta) = Some k'"
      by blast
  }
  {
    fix ta k' assume "waiting_key (cthreads \<lparr>cshared = sh, cthreads = notify_all ((cthreads sys)(t := CDone out'))\<rparr> ta) = Some k'"
    then show "k' \<in> pending (cshared \<lparr>cshared = sh, cthreads = notify_all ((cthreads sys)(t := CDone out'))\<rparr>)"
      by simp
  }
  {
    fix ta k' assume a: "unstored_key (cthreads \<lparr>cshared = sh, cthreads = notify_all ((cthreads sys)(t := CDone out'))\<rparr> ta) = Some k'"
    then have "ta \<noteq> t" by auto
    then have "unstored_key (cthreads sys ta) = Some k'" using a by simp
    then show "cache_getitem (cache (cshared \<lparr>cshared = sh, cthreads = notify_all ((cthreads sys)(t := CDone out'))\<rparr>)) k' = None"
      using inv c unfolding cond_inv_def by auto
  }
qed


lemma csys_threads_update: "sys\<lparr>cthreads := ths\<rparr> = \<lparr>cshared = cshared sys, cthreads = ths\<rparr>"
  by (cases sys) simp

lemma csys_shared_update: "sys\<lparr>cshared := sh\<rparr> = \<lparr>cshared = sh, cthreads = cthreads sys\<rparr>"
  by (cases sys) simp

lemma cond_inv_wait_for:
  assumes inv: "cond_inv sys"
    and h: "held_key (cthreads sys t) = None"
  shows "cond_inv (cond_info_wait_for t a k sys)"
proof (cases "cond_info_enter k (cshared sys)")
  case MustWait
  then have "k \<in> pending (cshared sys)"
    by (auto simp add: cond_info_enter_def split: if_splits option.splits)
  then have "cond_inv \<lparr>cshared = cshared sys, cthreads = (cthreads sys)(t := CWaiting a k)\<rparr>"
    using inv h by (intro cond_inv_neutral) auto
  then show ?thesis using MustWait by (simp add: cond_info_wait_for_def csys_threads_update)
next
  case (Hit r s1)
  then have s1: "pending s1 = pending (cshared sys)" "cache s1 = cache (cshared sys)"
    by (auto simp add: cond_info_enter_def split: if_splits option.splits)
  have "cond_inv \<lparr>cshared = s1, cthreads = (cthreads sys)(t := CDone (Return r))\<rparr>"
    using inv h s1 by (intro cond_inv_neutral) auto
  then show ?thesis using Hit by (simp add: cond_info_wait_for_def)
next
  case (Miss s1)
  then have s1: "pending s1 = insert k (pending (cshared sys))" "cache s1 = cache (cshared sys)"
    "k \<notin> pending (cshared sys)" "cache_getitem (cache (cshared sys)) k = None"
    by (auto simp add: cond_info_enter_def split: if_splits option.splits)
  have "cond_inv \<lparr>cshared = s1, cthreads = (cthreads sys)(t := CCompute a k)\<rparr>"
    using inv h s1 by (intro cond_inv_take) auto
  then show ?thesis using Miss by (simp add: cond_info_wait_for_def)
qed

lemma cond_inv_step:
  assumes inv: "cond_inv sys"
  shows "cond_inv (cond_info_step func key t sys)"
proof (cases "cthreads sys t")
  case CIdle
  then show ?thesis using inv by (simp add: cond_info_step_def)
next
  case (CStart a)
  then show ?thesis using inv by (simp add: cond_info_step_def cond_inv_wait_for)
next
  case (CWaiting a k)
  then show ?thesis using inv by (simp add: cond_info_step_def)
next
  case (CWoken a k)
  then show ?thesis using inv by (simp add: cond_info_step_def cond_inv_wait_for)
next
  case (CCompute a k)
  obtain r s2 where f: "call_func func a (cshared sys) = (r, s2)"
    by (cases "call_func func a (cshared sys)")
  then have s2: "pending s2 = pending (cshared sys)" "cache s2 = cache (cshared sys)"
    by (auto simp add: call_func_def split: prod.splits)
  show ?thesis
  proof (cases r)
    case (Inl e)
    have "cond_inv \<lparr>cshared = s2, cthreads = (cthreads sys)(t := CFinally k (Raise e))\<rparr>"
      using inv CCompute s2 by (intro cond_inv_neutral) auto
    then show ?thesis using CCompute f Inl by (simp add: cond_info_step_def)
  next
    case (Inr v)
    have "cond_inv \<lparr>cshared = s2, cthreads = (cthreads sys)(t := CStore k v)\<rparr>"
      using inv CCompute s2 by (intro cond_inv_neutral) auto
    then show ?thesis using CCompute f Inr by (simp add: cond_info_step_def)
  qed
next
  case (CStore k v)
  have excl: "\<And>x. held_key (cthreads sys x) = Some k \<Longrightarrow> x = t"
    using inv CStore unfolding cond_inv_def by (metis held_key.simps(2))
  have other: "\<And>k' ta. unstored_key (((cthreads sys)(t := CFinally k (Return v))) ta) = Some k'
      \<Longrightarrow> k' \<noteq> k"
  proof -
    fix k' ta assume a: "unstored_key (((cthreads sys)(t := CFinally k (Return v))) ta) = Some k'"
    then have "ta \<noteq> t" by auto
    then have "held_key (cthreads sys ta) = Some k'" using a by (simp add: unstored_held)
    then show "k' \<noteq> k" using excl \<open>ta \<noteq> t\<close> by auto
  qed
  have "cond_inv \<lparr>cshared = cond_info_store k v (cshared sys),
                 cthreads = (cthreads sys)(t := CFinally k (Return v))\<rparr>"
  proof (intro cond_inv_neutral [OF inv])
    show "held_key (CFinally k (Return v)) = held_key (cthreads sys t)" using CStore by simp
    show "pending (cond_info_store k v (cshared sys)) = pending (cshared sys)"
      by (simp add: cond_info_store_def cache_setitem_def split: option.split)
    show "\<And>k' ta. unstored_key (((cthreads sys)(t := CFinally k (Return v))) ta) = Some k'
        \<Longrightarrow> cache_getitem (cache (cshared sys)) k' = None
        \<Longrightarrow> cache_getitem (cache (cond_info_store k v (cshared sys))) k' = None"
      using other by (auto simp add: cond_info_store_def cache_defs)
  qed auto
  then show ?thesis using CStore by (simp add: cond_info_step_def)
next
  case (CFinally k out)
  then have "k \<in> pending (cshared sys)" using inv unfolding cond_inv_def by (metis held_key.simps(3))
  then have fin: "cond_info_finally k (cshared sys) = Some ((cshared sys)\<lparr>pending := pending (cshared sys) - {k}\<rparr>)"
    by (simp add: cond_info_finally_def)
  have "cond_inv \<lparr>cshared = (cshared sys)\<lparr>pending := pending (cshared sys) - {k}\<rparr>,
                 cthreads = notify_all ((cthreads sys)(t := CDone out))\<rparr>"
    using inv CFinally by (intro cond_inv_give) auto
  then show ?thesis using CFinally fin by (simp add: cond_info_step_def)
next
  case (CDone out)
  then show ?thesis using inv by (simp add: cond_info_step_def)
qed

lemma cond_inv_act:
  assumes inv: "cond_inv sys"
  shows "cond_inv (cond_info_act func key act sys)"
proof (cases act)
  case (Invoke t a)
  have "held_key (cthreads sys t) = None \<Longrightarrow>
      cond_inv \<lparr>cshared = cshared sys, cthreads = (cthreads sys)(t := CStart a)\<rparr>"
    using inv by (intro cond_inv_neutral) auto
  then show ?thesis using Invoke inv
    by (cases "cthreads sys t") (simp_all add: cond_info_act_def csys_threads_update)
next
  case (Step t)
  then show ?thesis using inv by (simp add: cond_info_act_def cond_inv_step)
next
  case Clear
  have "cond_inv \<lparr>cshared = cached_cond_info_cache_clear (cshared sys),
                 cthreads = (cthreads sys)(t := cthreads sys t)\<rparr>" for t
    using inv
    by (intro cond_inv_neutral)
      (auto simp add: cached_cond_info_cache_clear_def cache_clear_all_def cache_getitem_def
        cond_inv_def)
  then show ?thesis using Clear by (simp add: cond_info_act_def csys_shared_update)
qed

lemma cond_inv_run:
  assumes "cond_inv sys"
  shows "cond_inv (cond_info_run func key acts sys)"
  using assms unfolding cond_info_run_def
  by (induction acts arbitrary: sys) (simp_all add: cond_inv_act)

lemma cond_inv_reachable: "cond_inv (cond_info_run func key acts (cond_info_init c w))"
  by (intro cond_inv_run cond_inv_init)

subsection \<open>Several callers of the Condition-Gated strategy\<close>

lemmas cond_run_defs = cond_info_run_def cond_info_act_def cond_info_step_def
  cond_info_wait_for_def cond_info_init_def notify_all_def call_func_def fresh_def

text \<open>
  C7. In every state that callers can reach, a caller that enters (at its call, or woken
  from a wait) first tests the pending set, under the lock of the condition: if its key
  is pending it waits, the cache not being looked at and nothing else changing; only if
  the key is not pending does the same transition look the key up, and on a miss that
  transition also adds the key to the pending set and counts the miss before it ends,
  which is when the lock is released. A waiting caller waits for a pending key and takes
  no transition. A caller about to call the wrapped function holds its key in the
  pending set and no other caller holds that key.
\<close>

theorem cond_gate_ordering:
  assumes reach: "sys = cond_info_run func key acts (cond_info_init c w)"
  shows
  "((cthreads sys t = CStart a \<and> k = key a) \<or> cthreads sys t = CWoken a k \<longrightarrow>
      (k \<in> pending (cshared sys) \<longrightarrow>
         cond_info_step func key t sys
           = \<lparr>cshared = cshared sys, cthreads = (cthreads sys)(t := CWaiting a k)\<rparr>) \<and>
      (k \<notin> pending (cshared sys) \<and> cache_getitem (cache (cshared sys)) k = Some r \<longrightarrow>
         cond_info_step func key t sys
           = \<lparr>cshared = (cshared sys)\<lparr>hits := hits (cshared sys) + 1\<rparr>,
              cthreads = (cthreads sys)(t := CDone (Return r))\<rparr>) \<and>
      (k \<notin> pending (cshared sys) \<and> cache_getitem (cache (cshared sys)) k = None \<longrightarrow>
         cond_info_step func key t sys
           = \<lparr>cshared = (cshared sys)\<lparr>pending := insert k (pending (cshared sys)),
                                      misses := misses (cshared sys) + 1\<rparr>,
              cthreads = (cthreads sys)(t := CCompute a k)\<rparr>)) \<and>
   (cthreads sys t = CWaiting a k \<longrightarrow>
      k \<in> pending (cshared sys) \<and> cond_info_step func key t sys = sys) \<and>
   (cthreads sys t = CCompute a k \<longrightarrow>
      k \<in> pending (cshared sys) \<and> (\<forall>u. u \<noteq> t \<longrightarrow> held_key (cthreads sys u) \<noteq> Some k) \<and>
      cond_info_step func key t sys
        = \<lparr>cshared = (cshared sys)\<lparr>world := snd (func a (world (cshared sys)))\<rparr>,
           cthreads = (cthreads sys)
             (t := case fst (func a (world (cshared sys))) of
                     Inl e \<Rightarrow> CFinally k (Raise e) | Inr v \<Rightarrow> CStore k v)\<rparr>)"
proof -
  have inv: "cond_inv sys" unfolding reach by (rule cond_inv_reachable)
  have enter: "(cthreads sys t = CStart a \<and> k = key a) \<or> cthreads sys t = CWoken a k
      \<Longrightarrow> cond_info_step func key t sys = cond_info_wait_for t a k sys"
    by (auto simp add: cond_info_step_def)
  have w: "cthreads sys t = CWaiting a k \<Longrightarrow> k \<in> pending (cshared sys)"
    using inv unfolding cond_inv_def by (metis waiting_key.simps(1))
  have h: "cthreads sys t = CCompute a k \<Longrightarrow> k \<in> pending (cshared sys)"
    using inv unfolding cond_inv_def by (metis held_key.simps(1))
  have x: "cthreads sys t = CCompute a k \<Longrightarrow> u \<noteq> t \<Longrightarrow> held_key (cthreads sys u) \<noteq> Some k" for u
    using inv unfolding cond_inv_def by (metis held_key.simps(1))
  have f: "cthreads sys t = CCompute a k \<Longrightarrow>
      cond_info_step func key t sys
        = \<lparr>cshared = (cshared sys)\<lparr>world := snd (func a (world (cshared sys)))\<rparr>,
           cthreads = (cthreads sys)
             (t := case fst (func a (world (cshared sys))) of
                     Inl e \<Rightarrow> CFinally k (Raise e) | Inr v \<Rightarrow> CStore k v)\<rparr>"
    by (simp add: cond_info_step_def call_func_def split: prod.split sum.split)
  show ?thesis
    using enter w h x f
    by (simp add: cond_info_wait_for_def cond_info_enter_def csys_threads_update
        cond_info_step_def)
qed


theorem cond_gate_ordering_witness:
  "cthreads (cond_info_run (\<lambda>a w. (Inr (a + 1) :: unit + nat, w)) (\<lambda>a :: nat. a)
       [Invoke 0 5, Invoke 1 5, Step 0, Step 1]
       (cond_info_init \<lparr>items = Map.empty, rejects = (\<lambda>m k v. False)\<rparr> ())) 0 = CCompute 5 5 \<and>
   cthreads (cond_info_run (\<lambda>a w. (Inr (a + 1) :: unit + nat, w)) (\<lambda>a :: nat. a)
       [Invoke 0 5, Invoke 1 5, Step 0, Step 1]
       (cond_info_init \<lparr>items = Map.empty, rejects = (\<lambda>m k v. False)\<rparr> ())) 1 = CWaiting 5 5 \<and>
   5 \<in> pending (cshared (cond_info_run (\<lambda>a w. (Inr (a + 1) :: unit + nat, w)) (\<lambda>a :: nat. a)
       [Invoke 0 5, Invoke 1 5, Step 0, Step 1]
       (cond_info_init \<lparr>items = Map.empty, rejects = (\<lambda>m k v. False)\<rparr> ()))) \<and>
   cond_info_step (\<lambda>a w. (Inr (a + 1) :: unit + nat, w)) (\<lambda>a :: nat. a) 1
       (cond_info_run (\<lambda>a w. (Inr (a + 1) :: unit + nat, w)) (\<lambda>a :: nat. a)
          [Invoke 0 5, Invoke 1 5, Step 0, Step 1]
          (cond_info_init \<lparr>items = Map.empty, rejects = (\<lambda>m k v. False)\<rparr> ()))
     = cond_info_run (\<lambda>a w. (Inr (a + 1) :: unit + nat, w)) (\<lambda>a :: nat. a)
          [Invoke 0 5, Invoke 1 5, Step 0, Step 1]
          (cond_info_init \<lparr>items = Map.empty, rejects = (\<lambda>m k v. False)\<rparr> ())"
proof -
  let ?sys = "cond_info_run (\<lambda>a w. (Inr (a + 1) :: unit + nat, w)) (\<lambda>a :: nat. a)
       [Invoke 0 5, Invoke 1 5, Step 0, Step 1]
       (cond_info_init \<lparr>items = Map.empty, rejects = (\<lambda>m k v. False)\<rparr> ())"
  have t0: "cthreads ?sys 0 = CCompute 5 5" and t1: "cthreads ?sys 1 = CWaiting 5 5"
    by (simp_all add: cond_run_defs cond_defs cache_defs)
  show ?thesis
    using t0 t1
      cond_gate_ordering [OF refl, where t = 0 and a = 5 and k = 5
        and func = "\<lambda>a w. (Inr (a + 1) :: unit + nat, w)" and key = "\<lambda>a :: nat. a"
        and acts = "[Invoke 0 5, Invoke 1 5, Step 0, Step 1]"
        and c = "\<lparr>items = Map.empty, rejects = (\<lambda>m k v. False)\<rparr>" and w = "()"]
      cond_gate_ordering [OF refl, where t = 1 and a = 5 and k = 5
        and func = "\<lambda>a w. (Inr (a + 1) :: unit + nat, w)" and key = "\<lambda>a :: nat. a"
        and acts = "[Invoke 0 5, Invoke 1 5, Step 0, Step 1]"
        and c = "\<lparr>items = Map.empty, rejects = (\<lambda>m k v. False)\<rparr>" and w = "()"]
    by simp
qed

text \<open>
  C1. In every state that callers can reach: when the wrapped function raises \<open>e\<close>
  after a miss, the caller goes to its cleanup with the failure \<open>e\<close> and the cache
  unchanged; the cleanup finds the key in the pending set, removes it, wakes every
  waiting caller, leaves the cache unchanged and ends the call with the very outcome it
  was entered with, here the failure \<open>e\<close>. Every pending key is held by a caller
  between its miss and its cleanup, so none stays behind after a call. For a single
  caller the whole call raises \<open>e\<close> and leaves the pending set and the cache as they
  were.
\<close>

theorem cond_cleanup_on_failure:
  assumes reach: "sys = cond_info_run func key acts (cond_info_init c w)"
  shows
  "(cthreads sys t = CCompute a k \<and> func a (world (cshared sys)) = (Inl e, w') \<longrightarrow>
      cond_info_step func key t sys
        = \<lparr>cshared = (cshared sys)\<lparr>world := w'\<rparr>,
           cthreads = (cthreads sys)(t := CFinally k (Raise e))\<rparr>) \<and>
   (cthreads sys t = CFinally k out \<longrightarrow>
      k \<in> pending (cshared sys) \<and>
      cond_info_step func key t sys
        = \<lparr>cshared = (cshared sys)\<lparr>pending := pending (cshared sys) - {k}\<rparr>,
           cthreads = notify_all ((cthreads sys)(t := CDone out))\<rparr> \<and>
      cthreads (cond_info_step func key t sys) t = CDone out \<and>
      k \<notin> pending (cshared (cond_info_step func key t sys)) \<and>
      cache (cshared (cond_info_step func key t sys)) = cache (cshared sys) \<and>
      (\<forall>u. waiting_key (cthreads (cond_info_step func key t sys) u) = None) \<and>
      (\<forall>u a' k'. cthreads sys u = CWaiting a' k' \<longrightarrow>
         cthreads (cond_info_step func key t sys) u = CWoken a' k')) \<and>
   (\<forall>k' \<in> pending (cshared sys). \<exists>u. held_key (cthreads sys u) = Some k') \<and>
   (key a \<notin> pending s \<and> cache_getitem (cache s) (key a) = None \<and>
    func a (world s) = (Inl e, w') \<longrightarrow>
      cached_cond_info_wrapper func key a s
        = Some (Raise e, s\<lparr>misses := misses s + 1, world := w'\<rparr>))"
proof -
  have inv: "cond_inv sys" unfolding reach by (rule cond_inv_reachable)
  have 1: "cthreads sys t = CCompute a k \<and> func a (world (cshared sys)) = (Inl e, w') \<longrightarrow>
      cond_info_step func key t sys
        = \<lparr>cshared = (cshared sys)\<lparr>world := w'\<rparr>,
           cthreads = (cthreads sys)(t := CFinally k (Raise e))\<rparr>"
    by (simp add: cond_info_step_def call_func_def)
  have 2: "cthreads sys t = CFinally k out \<longrightarrow>
      k \<in> pending (cshared sys) \<and>
      cond_info_step func key t sys
        = \<lparr>cshared = (cshared sys)\<lparr>pending := pending (cshared sys) - {k}\<rparr>,
           cthreads = notify_all ((cthreads sys)(t := CDone out))\<rparr> \<and>
      cthreads (cond_info_step func key t sys) t = CDone out \<and>
      k \<notin> pending (cshared (cond_info_step func key t sys)) \<and>
      cache (cshared (cond_info_step func key t sys)) = cache (cshared sys) \<and>
      (\<forall>u. waiting_key (cthreads (cond_info_step func key t sys) u) = None) \<and>
      (\<forall>u a' k'. cthreads sys u = CWaiting a' k' \<longrightarrow>
         cthreads (cond_info_step func key t sys) u = CWoken a' k')"
  proof
    assume f: "cthreads sys t = CFinally k out"
    then have p: "k \<in> pending (cshared sys)"
      using inv unfolding cond_inv_def by (metis held_key.simps(3))
    then have step: "cond_info_step func key t sys
        = \<lparr>cshared = (cshared sys)\<lparr>pending := pending (cshared sys) - {k}\<rparr>,
           cthreads = notify_all ((cthreads sys)(t := CDone out))\<rparr>"
      using f by (simp add: cond_info_step_def cond_info_finally_def)
    have "\<forall>u a' k'. cthreads sys u = CWaiting a' k' \<longrightarrow>
         cthreads (cond_info_step func key t sys) u = CWoken a' k'"
      unfolding step using f by (auto simp add: notify_all_def)
    moreover have "cthreads (cond_info_step func key t sys) t = CDone out"
      unfolding step by (simp add: notify_all_def)
    ultimately show "k \<in> pending (cshared sys) \<and>
      cond_info_step func key t sys
        = \<lparr>cshared = (cshared sys)\<lparr>pending := pending (cshared sys) - {k}\<rparr>,
           cthreads = notify_all ((cthreads sys)(t := CDone out))\<rparr> \<and>
      cthreads (cond_info_step func key t sys) t = CDone out \<and>
      k \<notin> pending (cshared (cond_info_step func key t sys)) \<and>
      cache (cshared (cond_info_step func key t sys)) = cache (cshared sys) \<and>
      (\<forall>u. waiting_key (cthreads (cond_info_step func key t sys) u) = None) \<and>
      (\<forall>u a' k'. cthreads sys u = CWaiting a' k' \<longrightarrow>
         cthreads (cond_info_step func key t sys) u = CWoken a' k')"
      using p step by simp
  qed
  have 3: "\<forall>k' \<in> pending (cshared sys). \<exists>u. held_key (cthreads sys u) = Some k'"
    using inv unfolding cond_inv_def by blast
  have 4: "key a \<notin> pending s \<and> cache_getitem (cache s) (key a) = None \<and>
    func a (world s) = (Inl e, w') \<longrightarrow>
      cached_cond_info_wrapper func key a s
        = Some (Raise e, s\<lparr>misses := misses s + 1, world := w'\<rparr>)"
    by (simp add: cached_cond_info_wrapper_def call_func_def cond_defs)
  show ?thesis using 1 2 3 4 by blast
qed

theorem cond_cleanup_on_failure_witness:
  "cond_info_run (\<lambda>a w. (Inl () :: unit + nat, w)) (\<lambda>a :: nat. a)
       [Invoke 0 5, Invoke 1 5, Step 0, Step 1, Step 0, Step 0]
       (cond_info_init \<lparr>items = Map.empty, rejects = (\<lambda>m k v. False)\<rparr> ())
     = \<lparr>cshared = \<lparr>cache = \<lparr>items = Map.empty, rejects = (\<lambda>m k v. False)\<rparr>,
                   hits = 0, misses = 1, pending = {}, world = ()\<rparr>,
        cthreads = (\<lambda>u. CIdle)(0 := CDone (Raise ()), 1 := CWoken 5 5)\<rparr>"
proof -
  let ?F = "\<lambda>(a :: nat) (w :: unit). (Inl () :: unit + nat, w)"
  let ?K = "\<lambda>a :: nat. a"
  let ?C = "\<lparr>items = Map.empty, rejects = (\<lambda>(m :: nat \<rightharpoonup> nat) (k :: nat) (v :: nat). False)\<rparr>"
  let ?sys = "cond_info_run ?F ?K [Invoke 0 5, Invoke 1 5, Step 0, Step 1, Step 0]
       (cond_info_init ?C ())"
  have sys: "?sys = \<lparr>cshared = \<lparr>cache = ?C, hits = 0, misses = 1, pending = {5}, world = ()\<rparr>,
        cthreads = (\<lambda>u. CIdle)(0 := CFinally 5 (Raise ()), 1 := CWaiting 5 5)\<rparr>"
    by (simp add: cond_run_defs cond_defs cache_defs fun_eq_iff)
  have "cond_info_run ?F ?K [Invoke 0 5, Invoke 1 5, Step 0, Step 1, Step 0, Step 0]
       (cond_info_init ?C ()) = cond_info_step ?F ?K 0 ?sys"
    by (simp add: cond_info_run_def cond_info_act_def)
  then show ?thesis
    using cond_cleanup_on_failure [OF refl, where t = 0 and k = 5 and out = "Raise ()"
        and func = ?F and key = ?K and acts = "[Invoke 0 5, Invoke 1 5, Step 0, Step 1, Step 0]"
        and c = ?C and w = "()"]
    unfolding sys
    by (simp add: notify_all_def fun_eq_iff)
qed

subsection \<open>First writer wins\<close>

lemmas locked_run_defs = locked_info_run_def locked_info_act_def locked_info_step_def
  locked_info_init_def locked_info_lookup_def locked_store_def call_func_def fresh_def

lemma lsys_threads_update: "sys\<lparr>lthreads := ths\<rparr> = \<lparr>lshared = lshared sys, lthreads = ths\<rparr>"
  by (cases sys) simp

lemma locked_store_cases:
  "cache_getitem (cache s) k = Some r \<Longrightarrow> locked_store k v s = (r, s)"
  "cache_getitem (cache s) k = None \<Longrightarrow> \<not> rejects (cache s) (items (cache s)) k v \<Longrightarrow>
     locked_store k v s = (v, s\<lparr>cache := (cache s)\<lparr>items := (items (cache s))(k \<mapsto> v)\<rparr>\<rparr>)"
  "cache_getitem (cache s) k = None \<Longrightarrow> rejects (cache s) (items (cache s)) k v \<Longrightarrow>
     locked_store k v s = (v, s)"
  by (simp_all add: locked_store_def cache_defs)

lemma locked_store_keeps:
  assumes "cache_getitem (cache s) k = Some r"
  shows "cache_getitem (cache (snd (locked_store k' v s))) k = Some r"
  using assms by (auto simp add: locked_store_def cache_defs split: option.split)

lemma locked_step_keeps:
  assumes "cache_getitem (cache (lshared sys)) k = Some r"
  shows "cache_getitem (cache (lshared (locked_info_step func key t sys))) k = Some r"
proof (cases "lthreads sys t")
  case (LStore k' v)
  then show ?thesis using locked_store_keeps [OF assms, of k' v]
    by (auto simp add: locked_info_step_def split: prod.split)
qed (use assms in \<open>auto simp add: locked_info_step_def locked_info_lookup_def call_func_def
      cache_getitem_def split: option.split prod.split sum.split\<close>)

lemma locked_act_keeps:
  assumes "cache_getitem (cache (lshared sys)) k = Some r" "\<not> is_clear act"
  shows "cache_getitem (cache (lshared (locked_info_act func key act sys))) k = Some r"
  using assms
  by (cases act) (auto simp add: locked_info_act_def locked_step_keeps split: lthread.split)

lemma locked_run_keeps:
  assumes "cache_getitem (cache (lshared sys)) k = Some r" "\<forall>act \<in> set acts. \<not> is_clear act"
  shows "cache_getitem (cache (lshared (locked_info_run func key acts sys))) k = Some r"
  using assms unfolding locked_info_run_def
  by (induction acts arbitrary: sys) (simp_all add: locked_act_keeps)

lemma cond_step_keeps:
  assumes "cond_inv sys" "cache_getitem (cache (cshared sys)) k = Some r"
  shows "cache_getitem (cache (cshared (cond_info_step func key t sys))) k = Some r"
proof (cases "cthreads sys t")
  case (CStore k' v)
  then have "cache_getitem (cache (cshared sys)) k' = None"
    using assms(1) unfolding cond_inv_def by (metis unstored_key.simps(2))
  then have "k' \<noteq> k" using assms(2) by auto
  then show ?thesis using CStore assms(2)
    by (simp add: cond_info_step_def cond_info_store_def cache_defs)
qed (use assms(2) in \<open>auto simp add: cond_info_step_def cond_info_wait_for_def cond_info_enter_def
      cond_info_finally_def call_func_def cache_getitem_def split: option.split prod.split sum.split\<close>)

lemma cond_act_keeps:
  assumes "cond_inv sys" "cache_getitem (cache (cshared sys)) k = Some r" "\<not> is_clear act"
  shows "cache_getitem (cache (cshared (cond_info_act func key act sys))) k = Some r"
  using assms
  by (cases act) (auto simp add: cond_info_act_def cond_step_keeps split: cthread.split)

lemma cond_run_keeps:
  assumes "cond_inv sys" "cache_getitem (cache (cshared sys)) k = Some r"
    "\<forall>act \<in> set acts. \<not> is_clear act"
  shows "cache_getitem (cache (cshared (cond_info_run func key acts sys))) k = Some r"
  using assms unfolding cond_info_run_def
  by (induction acts arbitrary: sys) (simp_all add: cond_act_keeps cond_inv_act)


lemma among_quiet:
  "cached_locked_info_wrapper_among (\<lambda>s. s) func key a s = cached_locked_info_wrapper func key a s"
  "cached_locked_wrapper_among (\<lambda>s. s) func key a s = cached_locked_wrapper func key a s"
  "cached_unlocked_info_wrapper_among (\<lambda>s. s) func key a s = cached_unlocked_info_wrapper func key a s"
  "cached_unlocked_wrapper_among (\<lambda>s. s) func key a s = cached_unlocked_wrapper func key a s"
  "uncached_info_wrapper_among (\<lambda>s. s) func a s = uncached_info_wrapper func a s"
  "uncached_wrapper_among (\<lambda>s. s) func a s = uncached_wrapper func a s"
  "cached_cond_info_wrapper_among (\<lambda>s. s) func key a s = cached_cond_info_wrapper func key a s"
  "cachedmethod_locked_wrapper_among (\<lambda>s. s) meth cache_of mkey lock_of self a ms
     = cachedmethod_locked_wrapper meth cache_of mkey lock_of self a ms"
  by (simp_all add: cached_locked_info_wrapper_among_def cached_locked_info_wrapper_def
      cached_locked_wrapper_among_def cached_locked_wrapper_def
      cached_unlocked_info_wrapper_among_def cached_unlocked_info_wrapper_def
      cached_unlocked_wrapper_among_def cached_unlocked_wrapper_def
      uncached_info_wrapper_among_def uncached_info_wrapper_def
      uncached_wrapper_among_def uncached_wrapper_def
      cached_cond_info_wrapper_among_def cached_cond_info_wrapper_def
      cachedmethod_locked_wrapper_among_def cachedmethod_locked_wrapper_def)

lemma locked_among_keeps:
  assumes "cache_getitem (cache s) (key a) = None"
  shows "func a (world (others (s\<lparr>misses := misses s + 1\<rparr>))) = (Inr v, w') \<Longrightarrow>
         cache_getitem (cache (others (s\<lparr>misses := misses s + 1\<rparr>))) (key a) = Some r \<Longrightarrow>
         cached_locked_info_wrapper_among others func key a s
           = (Return r, (others (s\<lparr>misses := misses s + 1\<rparr>))\<lparr>world := w'\<rparr>)"
    and "func a (world (others s)) = (Inr v, w') \<Longrightarrow>
         cache_getitem (cache (others s)) (key a) = Some r \<Longrightarrow>
         cached_locked_wrapper_among others func key a s = (Return r, (others s)\<lparr>world := w'\<rparr>)"
  using assms
  by (simp_all add: cached_locked_info_wrapper_among_def cached_locked_wrapper_among_def
      locked_info_lookup_def locked_store_def call_func_def cache_defs)

lemma locked_among_stores:
  assumes "cache_getitem (cache s) (key a) = None"
  shows "func a (world (others (s\<lparr>misses := misses s + 1\<rparr>))) = (Inr v, w') \<Longrightarrow>
         cache_getitem (cache (others (s\<lparr>misses := misses s + 1\<rparr>))) (key a) = None \<Longrightarrow>
         \<not> rejects (cache (others (s\<lparr>misses := misses s + 1\<rparr>)))
              (items (cache (others (s\<lparr>misses := misses s + 1\<rparr>)))) (key a) v \<Longrightarrow>
         fst (cached_locked_info_wrapper_among others func key a s) = Return v \<and>
         cache_getitem (cache (snd (cached_locked_info_wrapper_among others func key a s))) (key a)
           = Some v"
    and "func a (world (others s)) = (Inr v, w') \<Longrightarrow>
         cache_getitem (cache (others s)) (key a) = None \<Longrightarrow>
         \<not> rejects (cache (others s)) (items (cache (others s))) (key a) v \<Longrightarrow>
         fst (cached_locked_wrapper_among others func key a s) = Return v \<and>
         cache_getitem (cache (snd (cached_locked_wrapper_among others func key a s))) (key a)
           = Some v"
  using assms
  by (simp_all add: cached_locked_info_wrapper_among_def cached_locked_wrapper_among_def
      locked_info_lookup_def locked_store_def call_func_def cache_defs)

lemma method_locked_among_keeps:
  assumes "cache_of self = Some c" "cache_getitem (caches ms c) (mkey self a) = None"
    and "meth self a (mworld (mothers (acquire (lock_of self) ms))) = (Inr v, w')"
    and "cache_getitem (caches (mothers (acquire (lock_of self) ms)) c) (mkey self a) = Some r"
  shows "fst (cachedmethod_locked_wrapper_among mothers meth cache_of mkey lock_of self a ms) = Return r"
    and "caches (snd (cachedmethod_locked_wrapper_among mothers meth cache_of mkey lock_of self a ms))
           = caches (mothers (acquire (lock_of self) ms))"
  using assms
  by (simp_all add: cachedmethod_locked_wrapper_among_def call_method_def acquire_def cache_defs
      Let_def)

lemma cond_among_overwrites:
  assumes "key a \<notin> pending s" "cache_getitem (cache s) (key a) = None"
    and "s1 = others (s\<lparr>pending := insert (key a) (pending s), misses := misses s + 1\<rparr>)"
    and "func a (world s1) = (Inr v, w')"
    and "key a \<in> pending s1"
    and "\<not> rejects (cache s1) (items (cache s1)) (key a) v"
  shows "cached_cond_info_wrapper_among others func key a s
     = Some (Return v,
             s1\<lparr>world := w', cache := (cache s1)\<lparr>items := (items (cache s1))(key a \<mapsto> v)\<rparr>,
                pending := pending s1 - {key a}\<rparr>)"
  using assms
  by (simp add: cached_cond_info_wrapper_among_def cond_defs call_func_def cache_defs Let_def)


text \<open>
  C2, amended. A call of a Locked wrapper (\<^verbatim>\<open>_cached_locked_info\<close>, \<^verbatim>\<open>_cached_locked\<close>,
  \<^verbatim>\<open>_cachedmethod_locked\<close>) that misses stores its computed value with insert-if-absent:
  when other code has stored a value for the key by the time of the store, that value is
  kept and returned in place of the computed one, and otherwise the computed value is
  stored (or, when rejected, only returned). A Condition-Gated call that misses stores
  its computed value unconditionally and returns the computed value, whatever the cache
  holds for the key then; its key is in the pending set from the miss to the cleanup, so
  that in every state that callers of the wrapper alone can reach the key of a caller
  about to store is not in the cache. When the cache is written through the wrapper
  alone and does not evict, then in both strategies, over any actions without
  \<^verbatim>\<open>cache_clear\<close>, a value once stored for a key stays the value stored for that key,
  and a hit returns it.
\<close>

theorem first_writer_wins:
  assumes reach: "csys = cond_info_run func key acts (cond_info_init c w)"
    and noclear: "\<forall>act \<in> set acts'. \<not> is_clear act"
  shows
  "(cache_getitem (cache s) (key a) = None \<and>
    func a (world (others (s\<lparr>misses := misses s + 1\<rparr>))) = (Inr v, w') \<and>
    cache_getitem (cache (others (s\<lparr>misses := misses s + 1\<rparr>))) (key a) = Some r \<longrightarrow>
      cached_locked_info_wrapper_among others func key a s
        = (Return r, (others (s\<lparr>misses := misses s + 1\<rparr>))\<lparr>world := w'\<rparr>)) \<and>
   (cache_getitem (cache s) (key a) = None \<and>
    func a (world (others s)) = (Inr v, w') \<and>
    cache_getitem (cache (others s)) (key a) = Some r \<longrightarrow>
      cached_locked_wrapper_among others func key a s = (Return r, (others s)\<lparr>world := w'\<rparr>)) \<and>
   (cache_getitem (cache s) (key a) = None \<and>
    func a (world (others (s\<lparr>misses := misses s + 1\<rparr>))) = (Inr v, w') \<and>
    cache_getitem (cache (others (s\<lparr>misses := misses s + 1\<rparr>))) (key a) = None \<and>
    \<not> rejects (cache (others (s\<lparr>misses := misses s + 1\<rparr>)))
         (items (cache (others (s\<lparr>misses := misses s + 1\<rparr>)))) (key a) v \<longrightarrow>
      fst (cached_locked_info_wrapper_among others func key a s) = Return v \<and>
      cache_getitem (cache (snd (cached_locked_info_wrapper_among others func key a s))) (key a)
        = Some v) \<and>
   (cache_getitem (cache s) (key a) = None \<and>
    func a (world (others s)) = (Inr v, w') \<and>
    cache_getitem (cache (others s)) (key a) = None \<and>
    \<not> rejects (cache (others s)) (items (cache (others s))) (key a) v \<longrightarrow>
      fst (cached_locked_wrapper_among others func key a s) = Return v \<and>
      cache_getitem (cache (snd (cached_locked_wrapper_among others func key a s))) (key a)
        = Some v) \<and>
   (cache_of self = Some cid \<and> cache_getitem (caches ms cid) (mkey self a) = None \<and>
    meth self a (mworld (mothers (acquire (lock_of self) ms))) = (Inr v, w') \<and>
    cache_getitem (caches (mothers (acquire (lock_of self) ms)) cid) (mkey self a) = Some r \<longrightarrow>
      fst (cachedmethod_locked_wrapper_among mothers meth cache_of mkey lock_of self a ms) = Return r \<and>
      caches (snd (cachedmethod_locked_wrapper_among mothers meth cache_of mkey lock_of self a ms))
        = caches (mothers (acquire (lock_of self) ms))) \<and>
   (key a \<notin> pending s \<and> cache_getitem (cache s) (key a) = None \<and>
    s1 = others (s\<lparr>pending := insert (key a) (pending s), misses := misses s + 1\<rparr>) \<and>
    func a (world s1) = (Inr v, w') \<and> key a \<in> pending s1 \<and>
    \<not> rejects (cache s1) (items (cache s1)) (key a) v \<longrightarrow>
      cached_cond_info_wrapper_among others func key a s
        = Some (Return v,
                s1\<lparr>world := w', cache := (cache s1)\<lparr>items := (items (cache s1))(key a \<mapsto> v)\<rparr>,
                   pending := pending s1 - {key a}\<rparr>)) \<and>
   (cache_getitem (cache s) k = Some r \<longrightarrow> locked_store k v s = (r, s)) \<and>
   (cache_getitem (cache s) k = None \<and> \<not> rejects (cache s) (items (cache s)) k v \<longrightarrow>
      locked_store k v s = (v, s\<lparr>cache := (cache s)\<lparr>items := (items (cache s))(k \<mapsto> v)\<rparr>\<rparr>)) \<and>
   (cache_getitem (cache s) k = None \<and> rejects (cache s) (items (cache s)) k v \<longrightarrow>
      locked_store k v s = (v, s)) \<and>
   (lthreads lsys t = LStore k v \<longrightarrow>
      locked_info_step func key t lsys
        = \<lparr>lshared = snd (locked_store k v (lshared lsys)),
           lthreads = (lthreads lsys)(t := LDone (Return (fst (locked_store k v (lshared lsys)))))\<rparr>) \<and>
   (lthreads lsys t = LStart a \<and> cache_getitem (cache (lshared lsys)) (key a) = Some r \<longrightarrow>
      lthreads (locked_info_step func key t lsys) t = LDone (Return r)) \<and>
   (cache_getitem (cache (lshared lsys)) k = Some r \<longrightarrow>
      cache_getitem (cache (lshared (locked_info_run func key acts' lsys))) k = Some r) \<and>
   (cthreads csys t = CStore k v \<longrightarrow>
      cache_getitem (cache (cshared csys)) k = None \<and>
      cond_info_step func key t csys
        = \<lparr>cshared = cond_info_store k v (cshared csys),
           cthreads = (cthreads csys)(t := CFinally k (Return v))\<rparr>) \<and>
   (cache_getitem (cache (cshared csys)) k = Some r \<longrightarrow>
      cache_getitem (cache (cshared (cond_info_run func key acts' csys))) k = Some r)"
proof -
  have inv: "cond_inv csys" unfolding reach by (rule cond_inv_reachable)
  have a1: "cache_getitem (cache s) (key a) = None \<and>
    func a (world (others (s\<lparr>misses := misses s + 1\<rparr>))) = (Inr v, w') \<and>
    cache_getitem (cache (others (s\<lparr>misses := misses s + 1\<rparr>))) (key a) = Some r \<longrightarrow>
      cached_locked_info_wrapper_among others func key a s
        = (Return r, (others (s\<lparr>misses := misses s + 1\<rparr>))\<lparr>world := w'\<rparr>)"
    by (simp add: locked_among_keeps)
  have a2: "cache_getitem (cache s) (key a) = None \<and>
    func a (world (others s)) = (Inr v, w') \<and>
    cache_getitem (cache (others s)) (key a) = Some r \<longrightarrow>
      cached_locked_wrapper_among others func key a s = (Return r, (others s)\<lparr>world := w'\<rparr>)"
    by (simp add: locked_among_keeps)
  have a5: "cache_getitem (cache s) (key a) = None \<and>
    func a (world (others (s\<lparr>misses := misses s + 1\<rparr>))) = (Inr v, w') \<and>
    cache_getitem (cache (others (s\<lparr>misses := misses s + 1\<rparr>))) (key a) = None \<and>
    \<not> rejects (cache (others (s\<lparr>misses := misses s + 1\<rparr>)))
         (items (cache (others (s\<lparr>misses := misses s + 1\<rparr>)))) (key a) v \<longrightarrow>
      fst (cached_locked_info_wrapper_among others func key a s) = Return v \<and>
      cache_getitem (cache (snd (cached_locked_info_wrapper_among others func key a s))) (key a)
        = Some v"
    using locked_among_stores(1) [of s key a func others v w'] by blast
  have a6: "cache_getitem (cache s) (key a) = None \<and>
    func a (world (others s)) = (Inr v, w') \<and>
    cache_getitem (cache (others s)) (key a) = None \<and>
    \<not> rejects (cache (others s)) (items (cache (others s))) (key a) v \<longrightarrow>
      fst (cached_locked_wrapper_among others func key a s) = Return v \<and>
      cache_getitem (cache (snd (cached_locked_wrapper_among others func key a s))) (key a)
        = Some v"
    using locked_among_stores(2) [of s key a func others v w'] by blast
  have a3: "cache_of self = Some cid \<and> cache_getitem (caches ms cid) (mkey self a) = None \<and>
    meth self a (mworld (mothers (acquire (lock_of self) ms))) = (Inr v, w') \<and>
    cache_getitem (caches (mothers (acquire (lock_of self) ms)) cid) (mkey self a) = Some r \<longrightarrow>
      fst (cachedmethod_locked_wrapper_among mothers meth cache_of mkey lock_of self a ms) = Return r \<and>
      caches (snd (cachedmethod_locked_wrapper_among mothers meth cache_of mkey lock_of self a ms))
        = caches (mothers (acquire (lock_of self) ms))"
    using method_locked_among_keeps [of cache_of self cid ms mkey a meth mothers lock_of v w' r]
    by blast
  have a4: "key a \<notin> pending s \<and> cache_getitem (cache s) (key a) = None \<and>
    s1 = others (s\<lparr>pending := insert (key a) (pending s), misses := misses s + 1\<rparr>) \<and>
    func a (world s1) = (Inr v, w') \<and> key a \<in> pending s1 \<and>
    \<not> rejects (cache s1) (items (cache s1)) (key a) v \<longrightarrow>
      cached_cond_info_wrapper_among others func key a s
        = Some (Return v,
                s1\<lparr>world := w', cache := (cache s1)\<lparr>items := (items (cache s1))(key a \<mapsto> v)\<rparr>,
                   pending := pending s1 - {key a}\<rparr>)"
    using cond_among_overwrites [of key a s s1 others func v w'] by blast
  have 0: "(cache_getitem (cache s) k = Some r \<longrightarrow> locked_store k v s = (r, s)) \<and>
   (cache_getitem (cache s) k = None \<and> \<not> rejects (cache s) (items (cache s)) k v \<longrightarrow>
      locked_store k v s = (v, s\<lparr>cache := (cache s)\<lparr>items := (items (cache s))(k \<mapsto> v)\<rparr>\<rparr>)) \<and>
   (cache_getitem (cache s) k = None \<and> rejects (cache s) (items (cache s)) k v \<longrightarrow>
      locked_store k v s = (v, s))"
    by (simp add: locked_store_cases)
  have 1: "lthreads lsys t = LStore k v \<longrightarrow>
      locked_info_step func key t lsys
        = \<lparr>lshared = snd (locked_store k v (lshared lsys)),
           lthreads = (lthreads lsys)(t := LDone (Return (fst (locked_store k v (lshared lsys)))))\<rparr>"
    by (simp add: locked_info_step_def split: prod.split)
  have 2: "lthreads lsys t = LStart a \<and> cache_getitem (cache (lshared lsys)) (key a) = Some r \<longrightarrow>
      lthreads (locked_info_step func key t lsys) t = LDone (Return r)"
    by (simp add: locked_info_step_def locked_info_lookup_def)
  have 3: "cache_getitem (cache (lshared lsys)) k = Some r \<longrightarrow>
      cache_getitem (cache (lshared (locked_info_run func key acts' lsys))) k = Some r"
    using noclear by (auto intro: locked_run_keeps)
  have 4: "cthreads csys t = CStore k v \<longrightarrow>
      cache_getitem (cache (cshared csys)) k = None \<and>
      cond_info_step func key t csys
        = \<lparr>cshared = cond_info_store k v (cshared csys),
           cthreads = (cthreads csys)(t := CFinally k (Return v))\<rparr>"
  proof
    assume st: "cthreads csys t = CStore k v"
    then have absent: "cache_getitem (cache (cshared csys)) k = None"
      using inv unfolding cond_inv_def by (metis unstored_key.simps(2))
    then show "cache_getitem (cache (cshared csys)) k = None \<and>
      cond_info_step func key t csys
        = \<lparr>cshared = cond_info_store k v (cshared csys),
           cthreads = (cthreads csys)(t := CFinally k (Return v))\<rparr>"
      using st by (simp add: cond_info_step_def)
  qed
  have 5: "cache_getitem (cache (cshared csys)) k = Some r \<longrightarrow>
      cache_getitem (cache (cshared (cond_info_run func key acts' csys))) k = Some r"
    using noclear inv by (auto intro: cond_run_keeps)
  show ?thesis
    by (intro conjI; (rule a1 a2 a3 a4 a5 a6 1 2 3 4 5 | simp add: locked_store_cases))
qed

theorem first_writer_wins_witness:
  "cached_locked_info_wrapper_among (\<lambda>s. s\<lparr>cache := (cache s)\<lparr>items := [0 \<mapsto> 9]\<rparr>\<rparr>)
       (\<lambda>a w. (Inr 7 :: unit + nat, w)) (\<lambda>a :: nat. 0 :: nat) 5
       (fresh \<lparr>items = Map.empty, rejects = (\<lambda>m k v. False)\<rparr> ())
     = (Return 9,
        \<lparr>cache = \<lparr>items = [0 \<mapsto> 9], rejects = (\<lambda>m k v. False)\<rparr>,
         hits = 0, misses = 1, pending = {}, world = ()\<rparr>) \<and>
   cached_locked_wrapper_among (\<lambda>s. s\<lparr>cache := (cache s)\<lparr>items := [0 \<mapsto> 9]\<rparr>\<rparr>)
       (\<lambda>a w. (Inr 7 :: unit + nat, w)) (\<lambda>a :: nat. 0 :: nat) 5
       (fresh \<lparr>items = Map.empty, rejects = (\<lambda>m k v. False)\<rparr> ())
     = (Return 9,
        \<lparr>cache = \<lparr>items = [0 \<mapsto> 9], rejects = (\<lambda>m k v. False)\<rparr>,
         hits = 0, misses = 0, pending = {}, world = ()\<rparr>) \<and>
   fst (cachedmethod_locked_wrapper_among
          (\<lambda>s. s\<lparr>caches := (\<lambda>c. \<lparr>items = [0 \<mapsto> 9], rejects = (\<lambda>m k v. False)\<rparr>)\<rparr>)
          (\<lambda>self a w. (Inr 7 :: unit + nat, w)) (\<lambda>self :: unit. Some ()) (\<lambda>self (a :: nat). 0 :: nat)
          (\<lambda>self. ()) () 5
          \<lparr>caches = (\<lambda>c. \<lparr>items = Map.empty, rejects = (\<lambda>m k v. False)\<rparr>),
           acquired = (\<lambda>l. 0), mworld = ()\<rparr>) = Return 9 \<and>
   cache_getitem (cache (cshared (cond_info_run (\<lambda>a w. (Inr 7 :: unit + nat, w)) (\<lambda>a :: nat. 0 :: nat)
       [Invoke 0 5, Step 0, Step 0]
       (cond_info_init \<lparr>items = Map.empty, rejects = (\<lambda>m k v. False)\<rparr> ())))) 0 = None \<and>
   cache_getitem (cache (cshared (cond_info_run (\<lambda>a w. (Inr 7 :: unit + nat, w)) (\<lambda>a :: nat. 0 :: nat)
       [Invoke 1 6, Step 1]
       (cond_info_run (\<lambda>a w. (Inr 7 :: unit + nat, w)) (\<lambda>a :: nat. 0 :: nat)
          [Invoke 0 5, Step 0, Step 0, Step 0, Step 0]
          (cond_info_init \<lparr>items = Map.empty, rejects = (\<lambda>m k v. False)\<rparr> ()))))) 0 = Some 7"
proof -
  let ?F = "\<lambda>(a :: nat) (w :: unit). (Inr 7 :: unit + nat, w)"
  let ?K = "\<lambda>a :: nat. 0 :: nat"
  let ?C = "\<lparr>items = Map.empty, rejects = (\<lambda>(m :: nat \<rightharpoonup> nat) (k :: nat) (v :: nat). False)\<rparr>"
  let ?O = "\<lambda>s :: (nat, nat, unit) wstate. s\<lparr>cache := (cache s)\<lparr>items := [0 \<mapsto> 9]\<rparr>\<rparr>"
  let ?MS = "\<lparr>caches = (\<lambda>c :: unit. ?C), acquired = (\<lambda>l :: unit. 0 :: nat), mworld = ()\<rparr>"
  let ?MO = "\<lambda>s :: (unit, unit, nat, nat, unit) mstate.
      s\<lparr>caches := (\<lambda>c. \<lparr>items = [0 \<mapsto> 9], rejects = (\<lambda>m k v. False)\<rparr>)\<rparr>"
  let ?CS = "cond_info_run ?F ?K [Invoke 0 5, Step 0, Step 0] (cond_info_init ?C ())"
  let ?CS2 = "cond_info_run ?F ?K [Invoke 0 5, Step 0, Step 0, Step 0, Step 0] (cond_info_init ?C ())"
  let ?LS = "locked_info_init ?C () :: (nat, nat, nat, unit, unit) lsys"
  have cs: "cthreads ?CS 0 = CStore 0 7"
    by (simp add: cond_run_defs cond_defs cache_defs)
  have cs2: "cache_getitem (cache (cshared ?CS2)) 0 = Some 7"
    by (simp add: cond_run_defs cond_defs cache_defs)
  show ?thesis
    using cs cs2
      first_writer_wins [where csys = ?CS and func = ?F and key = ?K
        and acts = "[Invoke 0 5, Step 0, Step 0]" and c = ?C and w = "()"
        and acts' = "[Invoke 1 6, Step 1]" and s = "fresh ?C ()" and a = 5 and others = ?O
        and v = 7 and w' = "()" and r = 9 and cache_of = "\<lambda>self :: unit. Some ()" and self = "()"
        and cid = "()" and ms = ?MS and mkey = "\<lambda>self (a :: nat). 0 :: nat"
        and meth = "\<lambda>self :: unit. ?F" and mothers = ?MO and lock_of = "\<lambda>self. ()"
        and ?s1.0 = "?O ((fresh ?C ())\<lparr>pending := {0}, misses := 1\<rparr>)"
        and k = 0 and lsys = ?LS and t = 0]
      first_writer_wins [where csys = ?CS2 and func = ?F and key = ?K
        and acts = "[Invoke 0 5, Step 0, Step 0, Step 0, Step 0]" and c = ?C and w = "()"
        and acts' = "[Invoke 1 6, Step 1]" and s = "fresh ?C ()" and a = 5 and others = ?O
        and v = 7 and w' = "()" and r = 7 and cache_of = "\<lambda>self :: unit. Some ()" and self = "()"
        and cid = "()" and ms = ?MS and mkey = "\<lambda>self (a :: nat). 0 :: nat"
        and meth = "\<lambda>self :: unit. ?F" and mothers = ?MO and lock_of = "\<lambda>self. ()"
        and ?s1.0 = "?O ((fresh ?C ())\<lparr>pending := {0}, misses := 1\<rparr>)"
        and k = 0 and lsys = ?LS and t = 0]
    by (simp add: fresh_def cache_getitem_def acquire_def)
qed

text \<open>
  C2 as stated has the Condition-Gated call keep and return a value already stored at
  store time. When other code stores 9 for the key while the call computes 7, the
  Condition-Gated call returns 7 and leaves 7 in the cache; so do the store and cleanup
  transitions of a caller whose key is in the cache when it stores.
\<close>

theorem first_writer_wins_counterexample:
  "cached_cond_info_wrapper_among (\<lambda>s. s\<lparr>cache := (cache s)\<lparr>items := [0 \<mapsto> 9]\<rparr>\<rparr>)
       (\<lambda>a w. (Inr 7 :: unit + nat, w)) (\<lambda>a :: nat. 0 :: nat) 5
       (fresh \<lparr>items = Map.empty, rejects = (\<lambda>m k v. False)\<rparr> ())
     = Some (Return 7,
             \<lparr>cache = \<lparr>items = [0 \<mapsto> 7], rejects = (\<lambda>m k v. False)\<rparr>,
              hits = 0, misses = 1, pending = {}, world = ()\<rparr>) \<and>
   cond_info_run (\<lambda>a w. (Inr 7 :: unit + nat, w)) (\<lambda>a :: nat. 0 :: nat) [Step 0, Step 0]
       \<lparr>cshared = \<lparr>cache = \<lparr>items = [0 \<mapsto> 9], rejects = (\<lambda>m k v. False)\<rparr>,
                   hits = 0, misses = 1, pending = {0}, world = ()\<rparr>,
        cthreads = (\<lambda>u. CIdle)(0 := CStore 0 7)\<rparr>
     = \<lparr>cshared = \<lparr>cache = \<lparr>items = [0 \<mapsto> 7], rejects = (\<lambda>m k v. False)\<rparr>,
                   hits = 0, misses = 1, pending = {}, world = ()\<rparr>,
        cthreads = (\<lambda>u. CIdle)(0 := CDone (Return 7))\<rparr>"
  by (simp add: cached_cond_info_wrapper_among_def cond_defs cond_run_defs cache_defs Let_def
      fun_eq_iff)


subsection \<open>One caller alone\<close>

text \<open>
  The transitions of one caller, taken with no other action in between, make the call
  of the wrapper function: the two descriptions of a call agree.
\<close>

lemma locked_single_caller:
  assumes "lthreads sys t = LIdle"
  shows "lshared (locked_info_run func key [Invoke t a, Step t, Step t, Step t] sys)
           = snd (cached_locked_info_wrapper func key a (lshared sys)) \<and>
         lthreads (locked_info_run func key [Invoke t a, Step t, Step t, Step t] sys) t
           = LDone (fst (cached_locked_info_wrapper func key a (lshared sys)))"
proof -
  obtain r s1 where l: "locked_info_lookup (key a) (lshared sys) = (r, s1)"
    by (cases "locked_info_lookup (key a) (lshared sys)")
  obtain x s2 where f: "call_func func a s1 = (x, s2)" by (cases "call_func func a s1")
  obtain y s3 where st: "locked_store (key a) (projr x) s2 = (y, s3)"
    by (cases "locked_store (key a) (projr x) s2")
  show ?thesis
    using assms l f st
    by (cases r; cases x)
      (simp_all add: locked_info_run_def locked_info_act_def locked_info_step_def
        cached_locked_info_wrapper_def)
qed

lemma cond_single_caller:
  assumes "cthreads sys t = CIdle" "key a \<notin> pending (cshared sys)"
  shows "cached_cond_info_wrapper func key a (cshared sys)
           = Some (case cthreads (cond_info_run func key [Invoke t a, Step t, Step t, Step t, Step t] sys) t of
                     CDone out \<Rightarrow> out | _ \<Rightarrow> RaiseKeyError,
                   cshared (cond_info_run func key [Invoke t a, Step t, Step t, Step t, Step t] sys))"
proof (cases "cache_getitem (cache (cshared sys)) (key a)")
  case (Some r)
  then show ?thesis using assms
    by (simp add: cond_info_run_def cond_info_act_def cond_info_step_def cond_info_wait_for_def
        cached_cond_info_wrapper_def cond_info_enter_def)
next
  case None
  let ?s1 = "(cshared sys)\<lparr>pending := insert (key a) (pending (cshared sys)),
                             misses := misses (cshared sys) + 1\<rparr>"
  obtain x s2 where f: "call_func func a ?s1 = (x, s2)" by (cases "call_func func a ?s1")
  then have p: "pending s2 = insert (key a) (pending (cshared sys))"
    by (auto simp add: call_func_def split: prod.splits)
  have p': "pending (cond_info_store (key a) v s2) = insert (key a) (pending (cshared sys))" for v
    using p by (simp add: cond_info_store_def split: option.split)
  show ?thesis
    using assms None f p p'
    by (cases x)
      (simp_all add: cond_info_run_def cond_info_act_def cond_info_step_def cond_info_wait_for_def
        cached_cond_info_wrapper_def cond_info_enter_def cond_info_finally_def cond_info_exit_def
        notify_all_def)
qed

end
